theory Spec2Isabelle
  imports Complex_Main "HOL-Library.Char_ord" "HOL-Library.List_Lexorder"
    "HOL-Library.Product_Lexorder"
begin

section \<open>Printer discovery relay: keys, payloads and the Redis store\<close>

text \<open>
  A shallow embedding of \<^verbatim>\<open>web/api/printer_discovery.py\<close>.

  \<^item> Python \<^verbatim>\<open>str\<close> is \<open>string\<close>; a \<open>char\<close> stands for a code point below 256.
  \<^item> Timestamps and scores (Python and Redis floats) are \<open>real\<close>: rounding of
    \<^verbatim>\<open>t - expiration_secs\<close> is not modelled. \<open>cutoff_exact\<close> below describes times and
    windows for which the source computes this difference without rounding.
  \<^item> The global \<^verbatim>\<open>REDIS\<close> handle is an explicit store value that every function takes
    and returns. The store has its own clock, which decides when a key with a
    time-to-live disappears; it is independent of the \<^verbatim>\<open>cur_time\<close> a caller passes.
  \<^item> Every raise is a value \<open>Inl e\<close> of the result; a function returns the store
    together with its result, since a pipeline that raises has still run its commands.
  \<^item> \<^verbatim>\<open>json.dumps\<close>, \<^verbatim>\<open>json.loads\<close> and \<^verbatim>\<open>time.time()\<close> belong to the Python library
    and are parameters (\<open>dumps\<close>, \<open>loads\<close>, \<open>time_time\<close>) of the functions that call
    them. \<open>json_dumps\<close> and \<open>json_loads\<close> below are a concrete codec for documents
    with integer numbers, used to evaluate the functions on concrete inputs.
  \<^item> A parameter that the source calls \<^verbatim>\<open>device_id\<close> is \<open>dev_id\<close> here, the name
    \<open>device_id\<close> being the field of the two payload records.
  \<^item> \<^verbatim>\<open>message_count\<close> is a natural number: what the server does with a negative
    count is not modelled.
  \<^item> Each function runs at one instant of the store's clock; calls of other clients
    between the two pipelines of \<^verbatim>\<open>redis__active_devices_for_client_ip\<close> are not
    modelled.
\<close>

subsection \<open>Constants and key names\<close>

definition LINKHELPER_MESSAGE_EXPIRATION_SECS :: int where
  "LINKHELPER_MESSAGE_EXPIRATION_SECS = 60"

definition LINKHELPER_PRESENCE_EXPIRATION_SECS :: int where
  "LINKHELPER_PRESENCE_EXPIRATION_SECS = 10"

definition redis__presence_prefix :: "string \<Rightarrow> string" where
  "redis__presence_prefix client_ip = ''printer_discovery:'' @ client_ip @ '':presence''"

definition redis__device_info_prefix :: "string \<Rightarrow> string \<Rightarrow> string" where
  "redis__device_info_prefix client_ip dev_id =
     ''printer_discovery:'' @ client_ip @ '':device_info:'' @ dev_id"

definition redis__to_device_message_queue_prefix :: "string \<Rightarrow> string \<Rightarrow> string" where
  "redis__to_device_message_queue_prefix client_ip dev_id =
     ''printer_discovery:'' @ client_ip @ '':messages_to:'' @ dev_id"

subsection \<open>Errors and JSON values\<close>

text \<open>
  \<open>JSONDecodeError\<close> is raised by \<^verbatim>\<open>json.loads\<close>, \<open>ValidationError\<close> by
  \<^verbatim>\<open>serializer.is_valid(raise_exception=True)\<close>, \<open>ResponseError\<close> by the Redis client
  when the server rejects a command (a key holding the wrong kind of value, a
  non-positive time-to-live for \<^verbatim>\<open>SETEX\<close>).
\<close>

datatype error = JSONDecodeError | ValidationError | ResponseError

text \<open>
  What \<^verbatim>\<open>json.loads\<close> returns. A Python \<^verbatim>\<open>dict\<close> is the list of its items in
  insertion order; a Python float is carried as the text \<^verbatim>\<open>str()\<close> gives for it.
\<close>

datatype json = JNull | JBool bool | JInt int | JFloat string | JStr string
  | JArr "json list" | JObj "(string \<times> json) list"

subsection \<open>Python \<^verbatim>\<open>str\<close> helpers\<close>

definition py_isspace :: "char \<Rightarrow> bool" where
  "py_isspace c = ((of_char c :: nat) \<in> {9, 10, 11, 12, 13, 28, 29, 30, 31, 32, 133, 160})"

definition py_strip :: "string \<Rightarrow> string" where
  "py_strip s = rev (dropWhile py_isspace (rev (dropWhile py_isspace s)))"

function py_str_nat :: "nat \<Rightarrow> string" where
  "py_str_nat n =
     (if n < 10 then [char_of (48 + n)]
      else py_str_nat (n div 10) @ [char_of (48 + n mod 10)])"
  by pat_completeness auto
termination
  by (relation "measure id") auto

declare py_str_nat.simps [simp del]

definition py_str_int :: "int \<Rightarrow> string" where
  "py_str_int i = (if i < 0 then CHR ''-'' # py_str_nat (nat (- i)) else py_str_nat (nat i))"

subsection \<open>Serializer fields\<close>

text \<open>
  \<^verbatim>\<open>serializers.CharField(required=True, min_length=.., max_length=.., allow_blank=..)\<close>
  run on the value found under the field's name (\<open>None\<close>: the key is missing).
  The field rejects a missing value, \<^verbatim>\<open>None\<close>, booleans, lists and dicts; it turns a
  number into its text; it strips surrounding whitespace (\<^verbatim>\<open>trim_whitespace\<close> is on by
  default); a blank value passes only with \<^verbatim>\<open>allow_blank\<close>; then the length bounds
  and the ban on NUL characters are checked.
\<close>

definition CharField_validators :: "nat option \<Rightarrow> nat option \<Rightarrow> string \<Rightarrow> error + string" where
  "CharField_validators min_length max_length v =
     (if (case max_length of None \<Rightarrow> False | Some n \<Rightarrow> n < length v) then Inl ValidationError
      else if (case min_length of None \<Rightarrow> False | Some n \<Rightarrow> length v < n) then Inl ValidationError
      else if char_of (0::nat) \<in> set v then Inl ValidationError
      else Inr v)"

definition CharField_text :: "nat option \<Rightarrow> nat option \<Rightarrow> bool \<Rightarrow> string \<Rightarrow> error + string" where
  "CharField_text min_length max_length allow_blank s =
     (if py_strip s = [] then (if allow_blank then Inr [] else Inl ValidationError)
      else CharField_validators min_length max_length (py_strip s))"

fun CharField :: "nat option \<Rightarrow> nat option \<Rightarrow> bool \<Rightarrow> json option \<Rightarrow> error + string" where
  "CharField mn mx ab (Some (JStr s)) = CharField_text mn mx ab s"
| "CharField mn mx ab (Some (JInt i)) = CharField_text mn mx ab (py_str_int i)"
| "CharField mn mx ab (Some (JFloat r)) = CharField_text mn mx ab r"
| "CharField mn mx ab _ = Inl ValidationError"

text \<open>
  \<^verbatim>\<open>serializers.DictField(required=True)\<close>: the value must be a dict; its items are
  not validated.
\<close>

fun DictField :: "json option \<Rightarrow> error + (string \<times> json) list" where
  "DictField (Some (JObj d)) = Inr d"
| "DictField _ = Inl ValidationError"

subsection \<open>DeviceInfo and DeviceMessage\<close>

record DeviceInfo =
  device_id :: string
  hostname :: string
  os :: string
  arch :: string
  octopi_version :: string
  rpi_model :: string
  printerprofile :: string

record DeviceMessage =
  device_id :: string
  type :: string
  data :: "(string \<times> json) list"

text \<open>
  \<^verbatim>\<open>DeviceInfo.from_dict\<close>: the serializer validates every declared field, in the
  order of their declaration, and raises one \<^verbatim>\<open>ValidationError\<close> if any of them fails
  (\<open>required\<close>); data that is not a dict fails too.
\<close>

definition required :: "error + 'a \<Rightarrow> ('a \<Rightarrow> error + 'b) \<Rightarrow> error + 'b" where
  "required field k = (case field of Inl e \<Rightarrow> Inl ValidationError | Inr v \<Rightarrow> k v)"

fun DeviceInfo_from_dict :: "json \<Rightarrow> error + DeviceInfo" where
  "DeviceInfo_from_dict (JObj d) =
     required (CharField (Some 32) (Some 32) False (map_of d ''device_id'')) (\<lambda>v1.
     required (CharField None (Some 253) False (map_of d ''hostname'')) (\<lambda>v2.
     required (CharField None (Some 253) True (map_of d ''os'')) (\<lambda>v3.
     required (CharField None (Some 253) True (map_of d ''arch'')) (\<lambda>v4.
     required (CharField None (Some 253) True (map_of d ''rpi_model'')) (\<lambda>v5.
     required (CharField None (Some 253) True (map_of d ''octopi_version'')) (\<lambda>v6.
     required (CharField None (Some 253) True (map_of d ''printerprofile'')) (\<lambda>v7.
       Inr \<lparr>DeviceInfo.device_id = v1, hostname = v2, os = v3, arch = v4,
            octopi_version = v6, rpi_model = v5, printerprofile = v7\<rparr>)))))))"
| "DeviceInfo_from_dict _ = Inl ValidationError"

definition DeviceInfo_asdict :: "DeviceInfo \<Rightarrow> json" where
  "DeviceInfo_asdict self =
     JObj [(''device_id'', JStr (DeviceInfo.device_id self)),
           (''hostname'', JStr (hostname self)),
           (''os'', JStr (os self)),
           (''arch'', JStr (arch self)),
           (''octopi_version'', JStr (octopi_version self)),
           (''rpi_model'', JStr (rpi_model self)),
           (''printerprofile'', JStr (printerprofile self))]"

definition DeviceInfo_from_json :: "(string \<Rightarrow> error + json) \<Rightarrow> string \<Rightarrow> error + DeviceInfo" where
  "DeviceInfo_from_json loads raw =
     (case loads raw of Inl e \<Rightarrow> Inl e | Inr j \<Rightarrow> DeviceInfo_from_dict j)"

definition DeviceInfo_to_json :: "(json \<Rightarrow> string) \<Rightarrow> DeviceInfo \<Rightarrow> string" where
  "DeviceInfo_to_json dumps self = dumps (DeviceInfo_asdict self)"

fun DeviceMessage_from_dict :: "json \<Rightarrow> error + DeviceMessage" where
  "DeviceMessage_from_dict (JObj d) =
     required (CharField (Some 32) (Some 32) False (map_of d ''device_id'')) (\<lambda>v1.
     required (CharField None (Some 64) False (map_of d ''type'')) (\<lambda>v2.
     required (DictField (map_of d ''data'')) (\<lambda>v3.
       Inr \<lparr>DeviceMessage.device_id = v1, type = v2, data = v3\<rparr>)))"
| "DeviceMessage_from_dict _ = Inl ValidationError"

definition DeviceMessage_asdict :: "DeviceMessage \<Rightarrow> json" where
  "DeviceMessage_asdict self =
     JObj [(''device_id'', JStr (DeviceMessage.device_id self)),
           (''type'', JStr (type self)),
           (''data'', JObj (data self))]"

definition DeviceMessage_from_json :: "(string \<Rightarrow> error + json) \<Rightarrow> string \<Rightarrow> error + DeviceMessage" where
  "DeviceMessage_from_json loads raw =
     (case loads raw of Inl e \<Rightarrow> Inl e | Inr j \<Rightarrow> DeviceMessage_from_dict j)"

definition DeviceMessage_to_json :: "(json \<Rightarrow> string) \<Rightarrow> DeviceMessage \<Rightarrow> string" where
  "DeviceMessage_to_json dumps self = dumps (DeviceMessage_asdict self)"

subsection \<open>A concrete JSON codec\<close>

text \<open>
  \<open>json_dumps\<close> writes what \<^verbatim>\<open>json.dumps\<close> writes with its default arguments
  (separators \<^verbatim>\<open>", "\<close> and \<^verbatim>\<open>": "\<close>, every character outside the printable ASCII range
  escaped). \<open>json_loads\<close> is a recursive-descent reader of the JSON grammar with
  integer numbers and \<^verbatim>\<open>\u00XX\<close> escapes; its fuel is the length of the text, which
  bounds the nesting depth. A repeated key keeps its first position and its last value,
  as a Python dict does.
\<close>

definition hex_digit :: "nat \<Rightarrow> char" where
  "hex_digit n = (if n < 10 then char_of (48 + n) else char_of (87 + n))"

definition json_escape_char :: "char \<Rightarrow> string" where
  "json_escape_char c =
     (if c = CHR 0x22 then [CHR 0x5C, CHR 0x22]
      else if c = CHR 0x5C then [CHR 0x5C, CHR 0x5C]
      else if c = CHR 0x0A then [CHR 0x5C, CHR ''n'']
      else if c = CHR 0x0D then [CHR 0x5C, CHR ''r'']
      else if c = CHR 0x09 then [CHR 0x5C, CHR ''t'']
      else if c = CHR 0x08 then [CHR 0x5C, CHR ''b'']
      else if c = CHR 0x0C then [CHR 0x5C, CHR ''f'']
      else if (of_char c :: nat) < 32 \<or> 126 < (of_char c :: nat)
        then [CHR 0x5C, CHR ''u'', CHR ''0'', CHR ''0'',
              hex_digit (of_char c div 16), hex_digit (of_char c mod 16)]
      else [c])"

definition json_quote :: "string \<Rightarrow> string" where
  "json_quote s = CHR 0x22 # concat (map json_escape_char s) @ [CHR 0x22]"

fun join_comma :: "string list \<Rightarrow> string" where
  "join_comma [] = []"
| "join_comma [x] = x"
| "join_comma (x # y # ys) = x @ '', '' @ join_comma (y # ys)"

primrec json_dumps :: "json \<Rightarrow> string" where
  "json_dumps JNull = ''null''"
| "json_dumps (JBool b) = (if b then ''true'' else ''false'')"
| "json_dumps (JInt i) = py_str_int i"
| "json_dumps (JFloat r) = r"
| "json_dumps (JStr s) = json_quote s"
| "json_dumps (JArr xs) = ''['' @ join_comma (map json_dumps xs) @ '']''"
| "json_dumps (JObj d) =
     ''{'' @ join_comma (map (\<lambda>(k, v). json_quote k @ '': '' @ v)
                          (map (map_prod id json_dumps) d)) @ ''}''"

definition json_ws :: "char \<Rightarrow> bool" where
  "json_ws c = (c = CHR '' '' \<or> c = CHR 0x09 \<or> c = CHR 0x0A \<or> c = CHR 0x0D)"

definition skip_ws :: "string \<Rightarrow> string" where
  "skip_ws s = dropWhile json_ws s"

definition hex_val :: "char \<Rightarrow> nat option" where
  "hex_val c =
     (let n = (of_char c :: nat) in
      if 48 \<le> n \<and> n \<le> 57 then Some (n - 48)
      else if 97 \<le> n \<and> n \<le> 102 then Some (n - 87)
      else if 65 \<le> n \<and> n \<le> 70 then Some (n - 55)
      else None)"

definition json_unescape :: "char \<Rightarrow> char option" where
  "json_unescape e =
     (if e = CHR 0x22 then Some (CHR 0x22)
      else if e = CHR 0x5C then Some (CHR 0x5C)
      else if e = CHR ''/'' then Some (CHR ''/'')
      else if e = CHR ''b'' then Some (CHR 0x08)
      else if e = CHR ''f'' then Some (CHR 0x0C)
      else if e = CHR ''n'' then Some (CHR 0x0A)
      else if e = CHR ''r'' then Some (CHR 0x0D)
      else if e = CHR ''t'' then Some (CHR 0x09)
      else None)"

definition cons_fst :: "'a \<Rightarrow> ('a list \<times> 'b) option \<Rightarrow> ('a list \<times> 'b) option" where
  "cons_fst c r = map_option (\<lambda>(s, rest). (c # s, rest)) r"

fun scan_string :: "string \<Rightarrow> (string \<times> string) option" where
  "scan_string [] = None"
| "scan_string (c # cs) =
     (if c = CHR 0x22 then Some ([], cs)
      else if c = CHR 0x5C then
        (case cs of
           [] \<Rightarrow> None
         | e # r \<Rightarrow>
             if e = CHR ''u'' then
               (case r of
                  h1 # h2 # h3 # h4 # r' \<Rightarrow>
                    (case (hex_val h1, hex_val h2, hex_val h3, hex_val h4) of
                       (Some 0, Some 0, Some a, Some b) \<Rightarrow>
                         cons_fst (char_of (16 * a + b)) (scan_string r')
                     | _ \<Rightarrow> None)
                | _ \<Rightarrow> None)
             else (case json_unescape e of
                     None \<Rightarrow> None
                   | Some ch \<Rightarrow> cons_fst ch (scan_string r)))
      else if (of_char c :: nat) < 32 then None
      else cons_fst c (scan_string cs))"

definition is_digit :: "char \<Rightarrow> bool" where
  "is_digit c = (48 \<le> (of_char c :: nat) \<and> (of_char c :: nat) \<le> 57)"

definition digits_value :: "string \<Rightarrow> nat" where
  "digits_value ds = foldl (\<lambda>a c. 10 * a + (of_char c - 48)) 0 ds"

definition scan_nat :: "string \<Rightarrow> (nat \<times> string) option" where
  "scan_nat s =
     (case s of
        [] \<Rightarrow> None
      | c # cs \<Rightarrow>
          if c = CHR ''0'' then Some (0, cs)
          else if is_digit c then Some (digits_value (takeWhile is_digit s), dropWhile is_digit s)
          else None)"

definition not_float :: "(int \<times> string) \<Rightarrow> (json \<times> string) option" where
  "not_float r =
     (case r of
        (i, []) \<Rightarrow> Some (JInt i, [])
      | (i, c # cs) \<Rightarrow>
          if c = CHR ''.'' \<or> c = CHR ''e'' \<or> c = CHR ''E'' then None else Some (JInt i, c # cs))"

definition scan_number :: "string \<Rightarrow> (json \<times> string) option" where
  "scan_number s =
     (case s of
        [] \<Rightarrow> None
      | c # cs \<Rightarrow>
          if c = CHR ''-'' then
            (case scan_nat cs of None \<Rightarrow> None | Some (n, r) \<Rightarrow> not_float (- int n, r))
          else (case scan_nat s of None \<Rightarrow> None | Some (n, r) \<Rightarrow> not_float (int n, r)))"

definition dict_set :: "string \<Rightarrow> json \<Rightarrow> (string \<times> json) list \<Rightarrow> (string \<times> json) list" where
  "dict_set k v d =
     (if k \<in> fst ` set d then map (\<lambda>(k', v'). if k' = k then (k', v) else (k', v')) d
      else d @ [(k, v)])"

fun parse_value :: "nat \<Rightarrow> string \<Rightarrow> (json \<times> string) option"
  and parse_elements :: "nat \<Rightarrow> string \<Rightarrow> json list \<Rightarrow> (json list \<times> string) option"
  and parse_members ::
    "nat \<Rightarrow> string \<Rightarrow> (string \<times> json) list \<Rightarrow> ((string \<times> json) list \<times> string) option"
where
  "parse_value 0 s = None"
| "parse_value (Suc n) s =
     (case skip_ws s of
        [] \<Rightarrow> None
      | c # cs \<Rightarrow>
          if c = CHR ''{'' then
            (case skip_ws cs of
               [] \<Rightarrow> None
             | c' # cs' \<Rightarrow>
                 if c' = CHR ''}'' then Some (JObj [], cs')
                 else map_option (\<lambda>(d, r). (JObj d, r)) (parse_members n (c' # cs') []))
          else if c = CHR ''['' then
            (case skip_ws cs of
               [] \<Rightarrow> None
             | c' # cs' \<Rightarrow>
                 if c' = CHR '']'' then Some (JArr [], cs')
                 else map_option (\<lambda>(xs, r). (JArr xs, r)) (parse_elements n (c' # cs') []))
          else if c = CHR 0x22 then
            map_option (\<lambda>(str, r). (JStr str, r)) (scan_string cs)
          else if take 4 (c # cs) = ''null'' then Some (JNull, drop 4 (c # cs))
          else if take 4 (c # cs) = ''true'' then Some (JBool True, drop 4 (c # cs))
          else if take 5 (c # cs) = ''false'' then Some (JBool False, drop 5 (c # cs))
          else scan_number (c # cs))"
| "parse_elements 0 s acc = None"
| "parse_elements (Suc n) s acc =
     (case parse_value n s of
        None \<Rightarrow> None
      | Some (v, r) \<Rightarrow>
          (case skip_ws r of
             [] \<Rightarrow> None
           | c # cs \<Rightarrow>
               if c = CHR '']'' then Some (acc @ [v], cs)
               else if c = CHR '','' then parse_elements n cs (acc @ [v])
               else None))"
| "parse_members 0 s acc = None"
| "parse_members (Suc n) s acc =
     (case s of
        [] \<Rightarrow> None
      | q # r \<Rightarrow>
          if q \<noteq> CHR 0x22 then None
          else
            (case scan_string r of
               None \<Rightarrow> None
             | Some (k, r1) \<Rightarrow>
                 (case skip_ws r1 of
                    [] \<Rightarrow> None
                  | c # r2 \<Rightarrow>
                      if c \<noteq> CHR '':'' then None
                      else
                        (case parse_value n r2 of
                           None \<Rightarrow> None
                         | Some (v, r3) \<Rightarrow>
                             (case skip_ws r3 of
                                [] \<Rightarrow> None
                              | c' # r4 \<Rightarrow>
                                  if c' = CHR ''}'' then Some (dict_set k v acc, r4)
                                  else if c' = CHR '','' then
                                    parse_members n (skip_ws r4) (dict_set k v acc)
                                  else None)))))"

definition json_loads :: "string \<Rightarrow> error + json" where
  "json_loads s =
     (case parse_value (Suc (length s)) s of
        None \<Rightarrow> Inl JSONDecodeError
      | Some (j, rest) \<Rightarrow> if skip_ws rest = [] then Inr j else Inl JSONDecodeError)"

subsection \<open>Example payloads\<close>

definition dev_A :: string where
  "dev_A = replicate 32 (CHR ''A'')"

definition info_A :: DeviceInfo where
  "info_A = \<lparr>DeviceInfo.device_id = dev_A, hostname = ''octopi'', os = ''Linux'',
              arch = ''armv7l'', octopi_version = ''0.18.0'', rpi_model = ''Raspberry Pi 4'',
              printerprofile = ''Prusa i3''\<rparr>"

definition msg_A :: DeviceMessage where
  "msg_A = \<lparr>DeviceMessage.device_id = dev_A, type = ''cmd'', data = [(''x'', JInt 1)]\<rparr>"

subsection \<open>The Redis store\<close>

text \<open>
  A key holds a string or a sorted set (members with scores; the list order of the
  representation carries no meaning, every read sorts by score and then by member).
  \<open>expires\<close> gives the store-clock instant at which a key with a time-to-live
  disappears, \<open>clock\<close> is the store's clock.
\<close>

datatype rvalue = RString string | RZSet "(string \<times> real) list"

record redis =
  kv :: "string \<Rightarrow> rvalue option"
  expires :: "string \<Rightarrow> real option"
  clock :: real

definition redis_empty :: redis where
  "redis_empty = \<lparr>kv = (\<lambda>k. None), expires = (\<lambda>k. None), clock = 0\<rparr>"

definition alive :: "redis \<Rightarrow> string \<Rightarrow> bool" where
  "alive s k = (case expires s k of None \<Rightarrow> True | Some d \<Rightarrow> clock s < d)"

text \<open>
  Keys whose time-to-live has run out are gone before any command runs; a key that
  does not exist has no time-to-live.
\<close>

definition expire_due :: "redis \<Rightarrow> redis" where
  "expire_due s =
     s\<lparr>kv := (\<lambda>k. if alive s k then kv s k else None),
       expires := (\<lambda>k. if alive s k \<and> kv s k \<noteq> None then expires s k else None)\<rparr>"

text \<open>Time passing on the store's side between two calls.\<close>

definition redis_advance :: "real \<Rightarrow> redis \<Rightarrow> redis" where
  "redis_advance dt s = expire_due (s\<lparr>clock := clock s + dt\<rparr>)"

definition redis_del :: "string \<Rightarrow> redis \<Rightarrow> redis" where
  "redis_del k s = s\<lparr>kv := (kv s)(k := None), expires := (expires s)(k := None)\<rparr>"

text \<open>Writing a value keeps the time-to-live of a key that exists; a new key has none.\<close>

definition redis_write :: "string \<Rightarrow> rvalue \<Rightarrow> redis \<Rightarrow> redis" where
  "redis_write k v s =
     s\<lparr>kv := (kv s)(k \<mapsto> v),
       expires := (if kv s k = None then (expires s)(k := None) else expires s)\<rparr>"

text \<open>A sorted set that becomes empty is deleted.\<close>

definition redis_write_zset :: "string \<Rightarrow> (string \<times> real) list \<Rightarrow> redis \<Rightarrow> redis" where
  "redis_write_zset k zs s = (if zs = [] then redis_del k s else redis_write k (RZSet zs) s)"

definition zsorted :: "(string \<times> real) list \<Rightarrow> (string \<times> real) list" where
  "zsorted zs = sort_key (\<lambda>(m, sc). (sc, m)) zs"

text \<open>\<^verbatim>\<open>ZREMRANGEBYSCORE key -inf mx\<close>: removes the members with score at most \<open>mx\<close>.\<close>

definition zremrangebyscore :: "string \<Rightarrow> real \<Rightarrow> redis \<Rightarrow> redis \<times> (error + nat)" where
  "zremrangebyscore key mx s =
     (case kv s key of
        None \<Rightarrow> (s, Inr 0)
      | Some (RString _) \<Rightarrow> (s, Inl ResponseError)
      | Some (RZSet zs) \<Rightarrow>
          (let keep = filter (\<lambda>(m, sc). \<not> sc \<le> mx) zs
           in (redis_write_zset key keep s, Inr (length zs - length keep))))"

text \<open>\<^verbatim>\<open>ZADD key sc m\<close>: adds the member, or gives it the new score if it is there.\<close>

definition zadd :: "string \<Rightarrow> string \<Rightarrow> real \<Rightarrow> redis \<Rightarrow> redis \<times> (error + nat)" where
  "zadd key m sc s =
     (case kv s key of
        None \<Rightarrow> (redis_write key (RZSet [(m, sc)]) s, Inr 1)
      | Some (RString _) \<Rightarrow> (s, Inl ResponseError)
      | Some (RZSet zs) \<Rightarrow>
          (redis_write key (RZSet (filter (\<lambda>(m', _). m' \<noteq> m) zs @ [(m, sc)])) s,
           Inr (if m \<in> fst ` set zs then 0 else 1)))"

text \<open>\<^verbatim>\<open>EXPIRE key secs\<close>: a non-positive time-to-live deletes the key at once.\<close>

definition expire :: "string \<Rightarrow> int \<Rightarrow> redis \<Rightarrow> redis \<times> (error + bool)" where
  "expire key secs s =
     (if kv s key = None then (s, Inr False)
      else if secs \<le> 0 then (redis_del key s, Inr True)
      else (s\<lparr>expires := (expires s)(key \<mapsto> clock s + real_of_int secs)\<rparr>, Inr True))"

text \<open>\<^verbatim>\<open>ZPOPMIN key count\<close>: removes and returns the \<open>count\<close> members of lowest score.\<close>

definition zpopmin :: "string \<Rightarrow> nat \<Rightarrow> redis \<Rightarrow> redis \<times> (error + (string \<times> real) list)" where
  "zpopmin key count s =
     (case kv s key of
        None \<Rightarrow> (s, Inr [])
      | Some (RString _) \<Rightarrow> (s, Inl ResponseError)
      | Some (RZSet zs) \<Rightarrow>
          (redis_write_zset key (drop count (zsorted zs)) s, Inr (take count (zsorted zs))))"

text \<open>\<^verbatim>\<open>ZRANGEBYSCORE key mn +inf\<close>: the members with score at least \<open>mn\<close>, in order.\<close>

definition zrangebyscore :: "string \<Rightarrow> real \<Rightarrow> redis \<Rightarrow> redis \<times> (error + string list)" where
  "zrangebyscore key mn s =
     (case kv s key of
        None \<Rightarrow> (s, Inr [])
      | Some (RString _) \<Rightarrow> (s, Inl ResponseError)
      | Some (RZSet zs) \<Rightarrow> (s, Inr (map fst (filter (\<lambda>(m, sc). mn \<le> sc) (zsorted zs)))))"

definition redis_get :: "string \<Rightarrow> redis \<Rightarrow> redis \<times> (error + string option)" where
  "redis_get key s =
     (case kv s key of
        None \<Rightarrow> (s, Inr None)
      | Some (RString v) \<Rightarrow> (s, Inr (Some v))
      | Some (RZSet _) \<Rightarrow> (s, Inl ResponseError))"

text \<open>\<^verbatim>\<open>SETEX key secs v\<close>: overwrites whatever the key holds; rejects \<open>secs \<le> 0\<close>.\<close>

definition setex :: "string \<Rightarrow> int \<Rightarrow> string \<Rightarrow> redis \<Rightarrow> redis \<times> (error + bool)" where
  "setex key secs v s =
     (if secs \<le> 0 then (s, Inl ResponseError)
      else (s\<lparr>kv := (kv s)(key \<mapsto> RString v),
              expires := (expires s)(key \<mapsto> clock s + real_of_int secs)\<rparr>, Inr True))"

text \<open>
  \<^verbatim>\<open>conn.execute()\<close> runs every queued command, also after one of them failed, and
  then raises the first error among the replies.
\<close>

fun first_error :: "error option list \<Rightarrow> error option" where
  "first_error [] = None"
| "first_error (None # rs) = first_error rs"
| "first_error (Some e # rs) = Some e"

definition err_of :: "error + 'a \<Rightarrow> error option" where
  "err_of r = (case r of Inl e \<Rightarrow> Some e | Inr _ \<Rightarrow> None)"

subsection \<open>The four operations\<close>

definition redis__push_message_for_device ::
  "(json \<Rightarrow> string) \<Rightarrow> real \<Rightarrow> redis \<Rightarrow> string \<Rightarrow> string \<Rightarrow> DeviceMessage \<Rightarrow> real option \<Rightarrow> int
     \<Rightarrow> redis \<times> (error + unit)" where
  "redis__push_message_for_device dumps time_time s client_ip dev_id message cur_time
       expiration_secs =
     (let t = (case cur_time of Some c \<Rightarrow> c | None \<Rightarrow> time_time);
          raw = DeviceMessage_to_json dumps message;
          key = redis__to_device_message_queue_prefix client_ip dev_id;
          (s1, r1) = zremrangebyscore key (t - real_of_int expiration_secs) (expire_due s);
          (s2, r2) = zadd key raw t s1;
          (s3, r3) = expire key expiration_secs s2
      in (s3, case first_error [err_of r1, err_of r2, err_of r3] of
                Some e \<Rightarrow> Inl e | None \<Rightarrow> Inr ()))"

text \<open>The loop over \<^verbatim>\<open>raw_messages\<close>: the first payload that fails to parse raises.\<close>

fun parse_messages :: "(string \<Rightarrow> error + json) \<Rightarrow> (string \<times> real) list \<Rightarrow> error + DeviceMessage list" where
  "parse_messages loads [] = Inr []"
| "parse_messages loads ((raw, _) # rest) =
     (case DeviceMessage_from_json loads raw of
        Inl e \<Rightarrow> Inl e
      | Inr msg \<Rightarrow>
          (case parse_messages loads rest of
             Inl e \<Rightarrow> Inl e
           | Inr messages \<Rightarrow> Inr (msg # messages)))"

definition redis__pull_messages_for_device ::
  "(string \<Rightarrow> error + json) \<Rightarrow> real \<Rightarrow> redis \<Rightarrow> string \<Rightarrow> string \<Rightarrow> nat \<Rightarrow> real option \<Rightarrow> int
     \<Rightarrow> redis \<times> (error + DeviceMessage list)" where
  "redis__pull_messages_for_device loads time_time s client_ip dev_id message_count cur_time
       expiration_secs =
     (let t = (case cur_time of Some c \<Rightarrow> c | None \<Rightarrow> time_time);
          key = redis__to_device_message_queue_prefix client_ip dev_id;
          (s1, r1) = zremrangebyscore key (t - real_of_int expiration_secs) (expire_due s);
          (s2, r2) = zpopmin key message_count s1
      in (s2, case r1 of
                Inl e \<Rightarrow> Inl e
              | Inr _ \<Rightarrow>
                  (case r2 of
                     Inl e \<Rightarrow> Inl e
                   | Inr raw_messages \<Rightarrow> parse_messages loads raw_messages)))"

text \<open>The second pipeline: one \<^verbatim>\<open>GET\<close> per device id, all of them run.\<close>

fun get_device_infos :: "string \<Rightarrow> string list \<Rightarrow> redis \<Rightarrow> (error + string option) list" where
  "get_device_infos client_ip [] s = []"
| "get_device_infos client_ip (dev_id # device_ids) s =
     snd (redis_get (redis__device_info_prefix client_ip dev_id) s)
       # get_device_infos client_ip device_ids s"

text \<open>
  The loop over \<^verbatim>\<open>ret2\<close>: a reply that is \<^verbatim>\<open>None\<close> or the empty string is skipped, any
  other is parsed, and the first that fails to parse raises.
\<close>

fun parse_infos :: "(string \<Rightarrow> error + json) \<Rightarrow> string option list \<Rightarrow> error + DeviceInfo list" where
  "parse_infos loads [] = Inr []"
| "parse_infos loads (device_info_raw # rest) =
     (if device_info_raw = None \<or> device_info_raw = Some [] then parse_infos loads rest
      else (case DeviceInfo_from_json loads (the device_info_raw) of
              Inl e \<Rightarrow> Inl e
            | Inr dinfo \<Rightarrow>
                (case parse_infos loads rest of
                   Inl e \<Rightarrow> Inl e
                 | Inr dinfos \<Rightarrow> Inr (dinfo # dinfos))))"

fun replies_of :: "(error + 'a) list \<Rightarrow> 'a list" where
  "replies_of [] = []"
| "replies_of (Inr x # rs) = x # replies_of rs"
| "replies_of (Inl e # rs) = replies_of rs"

text \<open>
  The two pipelines run at the same instant of the store's clock: no key expires
  between them.
\<close>

definition redis__active_devices_for_client_ip ::
  "(string \<Rightarrow> error + json) \<Rightarrow> real \<Rightarrow> redis \<Rightarrow> string \<Rightarrow> real option \<Rightarrow> int
     \<Rightarrow> redis \<times> (error + DeviceInfo list)" where
  "redis__active_devices_for_client_ip loads time_time s client_ip cur_time expiration_secs =
     (let t = (case cur_time of Some c \<Rightarrow> c | None \<Rightarrow> time_time);
          key = redis__presence_prefix client_ip;
          (s1, r1) = zremrangebyscore key (t - real_of_int expiration_secs) (expire_due s);
          (s2, r2) = zrangebyscore key (t - real_of_int expiration_secs) s1
      in (s2, case r1 of
                Inl e \<Rightarrow> Inl e
              | Inr _ \<Rightarrow>
                  (case r2 of
                     Inl e \<Rightarrow> Inl e
                   | Inr device_ids \<Rightarrow>
                       (let ret2 = get_device_infos client_ip device_ids s2
                        in case first_error (map err_of ret2) of
                             Some e \<Rightarrow> Inl e
                           | None \<Rightarrow> parse_infos loads (replies_of ret2)))))"

definition redis__update_presence_for_device ::
  "(json \<Rightarrow> string) \<Rightarrow> real \<Rightarrow> redis \<Rightarrow> string \<Rightarrow> string \<Rightarrow> DeviceInfo \<Rightarrow> real option \<Rightarrow> int
     \<Rightarrow> redis \<times> (error + unit)" where
  "redis__update_presence_for_device dumps time_time s client_ip dev_id device_info cur_time
       expiration_secs =
     (let t = (case cur_time of Some c \<Rightarrow> c | None \<Rightarrow> time_time);
          raw = DeviceInfo_to_json dumps device_info;
          key = redis__presence_prefix client_ip;
          info_key = redis__device_info_prefix client_ip dev_id;
          (s1, r1) = zadd key dev_id t (expire_due s);
          (s2, r2) = expire key expiration_secs s1;
          (s3, r3) = setex info_key expiration_secs raw s2
      in (s3, case first_error [err_of r1, err_of r2, err_of r3] of
                Some e \<Rightarrow> Inl e | None \<Rightarrow> Inr ()))"

text \<open>The score a sorted set records for a member, as a reader of the store sees it.\<close>

definition zset_of :: "redis \<Rightarrow> string \<Rightarrow> (string \<times> real) list" where
  "zset_of s key =
     (case kv (expire_due s) key of Some (RZSet zs) \<Rightarrow> zs | _ \<Rightarrow> [])"

definition zscore :: "redis \<Rightarrow> string \<Rightarrow> string \<Rightarrow> real option" where
  "zscore s key m = map_of (zset_of s key) m"

subsection \<open>What each operation does to the store\<close>

text \<open>
  The store that each of the four operations leaves, written as one update of the
  store it finds (after the keys that are due have expired). The lemmas
  \<open>push_store\<close>, \<open>pull_store\<close>, \<open>list_store\<close> and \<open>update_store\<close> prove that the
  operations above compute exactly these.
\<close>

definition settled :: "redis \<Rightarrow> bool" where
  "settled s = (\<forall>k. alive s k \<and> (kv s k = None \<longrightarrow> expires s k = None))"

definition zset_at :: "redis \<Rightarrow> string \<Rightarrow> (string \<times> real) list" where
  "zset_at s key = (case kv s key of Some (RZSet zs) \<Rightarrow> zs | _ \<Rightarrow> [])"

definition is_string :: "redis \<Rightarrow> string \<Rightarrow> bool" where
  "is_string s key = (case kv s key of Some (RString _) \<Rightarrow> True | _ \<Rightarrow> False)"

definition fresh :: "real \<Rightarrow> (string \<times> real) list \<Rightarrow> (string \<times> real) list" where
  "fresh mx zs = filter (\<lambda>(m, sc). \<not> sc \<le> mx) zs"

definition without :: "string \<Rightarrow> (string \<times> real) list \<Rightarrow> (string \<times> real) list" where
  "without m zs = filter (\<lambda>(m', _). m' \<noteq> m) zs"

definition pushed :: "string \<Rightarrow> string \<Rightarrow> real \<Rightarrow> int \<Rightarrow> redis \<Rightarrow> redis" where
  "pushed key raw t W s =
     (if W \<le> 0 then redis_del key s
      else s\<lparr>kv := (if is_string s key then kv s
                    else (kv s)(key \<mapsto> RZSet (without raw (fresh (t - real_of_int W) (zset_at s key)) @ [(raw, t)]))),
             expires := (expires s)(key \<mapsto> clock s + real_of_int W)\<rparr>)"

definition pulled :: "string \<Rightarrow> nat \<Rightarrow> real \<Rightarrow> redis \<Rightarrow> redis" where
  "pulled key n mx s =
     (if is_string s key then s
      else redis_write_zset key (drop n (zsorted (fresh mx (zset_at s key)))) s)"

definition pruned :: "string \<Rightarrow> real \<Rightarrow> redis \<Rightarrow> redis" where
  "pruned key mx s =
     (if is_string s key then s else redis_write_zset key (fresh mx (zset_at s key)) s)"

definition updated :: "string \<Rightarrow> string \<Rightarrow> string \<Rightarrow> string \<Rightarrow> real \<Rightarrow> int \<Rightarrow> redis \<Rightarrow> redis" where
  "updated key info_key d raw t W s =
     (if W \<le> 0 then redis_del key s
      else s\<lparr>kv := (if is_string s key then (kv s)(info_key \<mapsto> RString raw)
                    else (kv s)(key \<mapsto> RZSet (without d (zset_at s key) @ [(d, t)]),
                                info_key \<mapsto> RString raw)),
             expires := (expires s)(key \<mapsto> clock s + real_of_int W,
                                    info_key \<mapsto> clock s + real_of_int W)\<rparr>)"

definition fetch_infos :: "(string \<Rightarrow> error + json) \<Rightarrow> string \<Rightarrow> string list \<Rightarrow> redis \<Rightarrow> error + DeviceInfo list" where
  "fetch_infos loads ip ids s =
     (case first_error (map err_of (get_device_infos ip ids s)) of
        Some e \<Rightarrow> Inl e
      | None \<Rightarrow> parse_infos loads (replies_of (get_device_infos ip ids s)))"

subsection \<open>Example mailboxes\<close>

text \<open>
  Two more valid messages, a message whose \<^verbatim>\<open>type\<close> is blank (the dataclass accepts it,
  the serializer does not), and a store whose mailbox for device \<open>dev_A\<close> holds a member
  that is not JSON next to the serialized \<open>msg_A\<close>.
\<close>

definition msg_B :: DeviceMessage where
  "msg_B = \<lparr>DeviceMessage.device_id = dev_A, type = ''ping'', data = []\<rparr>"

definition msg_C :: DeviceMessage where
  "msg_C = \<lparr>DeviceMessage.device_id = dev_A, type = ''reboot'', data = [(''delay'', JInt 30)]\<rparr>"

definition msg_blank_type :: DeviceMessage where
  "msg_blank_type = \<lparr>DeviceMessage.device_id = dev_A, type = [], data = []\<rparr>"

definition mailbox_with_garbage :: redis where
  "mailbox_with_garbage =
     redis_empty\<lparr>kv := (\<lambda>k. if k = redis__to_device_message_queue_prefix ''ip1'' dev_A
                            then Some (RZSet [(''garbage'', 1),
                                              (DeviceMessage_to_json json_dumps msg_A, 2)])
                            else None)\<rparr>"

subsection \<open>Client addresses and what a key holds\<close>

text \<open>
  The text of an IPv4 or IPv6 address is made of hexadecimal digits, dots and colons.
  \<open>redis_entry\<close> is what any command finds under a key: its value and the instant at
  which it expires. \<open>key_rest\<close> is what follows the address in a key name, read from
  the first character that cannot belong to an address.
\<close>

definition ip_char :: "char \<Rightarrow> bool" where
  "ip_char c = (c \<in> set ''0123456789abcdefABCDEF.:'')"

definition ip_text :: "string \<Rightarrow> bool" where
  "ip_text client_ip = list_all ip_char client_ip"

definition redis_entry :: "redis \<Rightarrow> string \<Rightarrow> rvalue option \<times> real option" where
  "redis_entry s k = (kv (expire_due s) k, expires (expire_due s) k)"

definition key_rest :: "string \<Rightarrow> string" where
  "key_rest k = dropWhile ip_char (drop 18 k)"

subsection \<open>Reachable stores\<close>

text \<open>
  The stores that the four operations and the passing of time produce from the empty
  store, with any arguments. \<open>zsets_distinct\<close>: no sorted set holds a member twice.
\<close>

inductive reachable :: "(json \<Rightarrow> string) \<Rightarrow> (string \<Rightarrow> error + json) \<Rightarrow> redis \<Rightarrow> bool"
  for dumps :: "json \<Rightarrow> string" and loads :: "string \<Rightarrow> error + json" where
  reachable_empty: "reachable dumps loads redis_empty"
| reachable_advance:
    "reachable dumps loads s \<Longrightarrow> 0 \<le> dt \<Longrightarrow> reachable dumps loads (redis_advance dt s)"
| reachable_push:
    "reachable dumps loads s \<Longrightarrow>
     reachable dumps loads
       (fst (redis__push_message_for_device dumps time_time s client_ip dev_id message cur_time
               expiration_secs))"
| reachable_pull:
    "reachable dumps loads s \<Longrightarrow>
     reachable dumps loads
       (fst (redis__pull_messages_for_device loads time_time s client_ip dev_id message_count
               cur_time expiration_secs))"
| reachable_list:
    "reachable dumps loads s \<Longrightarrow>
     reachable dumps loads
       (fst (redis__active_devices_for_client_ip loads time_time s client_ip cur_time
               expiration_secs))"
| reachable_update:
    "reachable dumps loads s \<Longrightarrow>
     reachable dumps loads
       (fst (redis__update_presence_for_device dumps time_time s client_ip dev_id device_info
               cur_time expiration_secs))"

definition zsets_distinct :: "redis \<Rightarrow> bool" where
  "zsets_distinct s = (\<forall>k zs. kv s k = Some (RZSet zs) \<longrightarrow> distinct (map fst zs))"

subsection \<open>Presence: ids, snapshots and well-formed state\<close>

text \<open>
  \<open>zrem\<close> is the Redis command \<^verbatim>\<open>ZREM\<close>; the source does not call it, it serves to
  speak of the store in which a device id is not listed. \<open>active_ids\<close> are the ids
  whose presence score is within the window at \<open>now\<close>, in the order of the sorted set.
  \<open>has_snapshot\<close>: the info key of the device holds a non-empty string. \<open>snapshot_ok\<close>:
  the info key is absent, or holds a string that is empty or parses to a
  \<^verbatim>\<open>DeviceInfo\<close> carrying this device id. \<open>presence_ok\<close>: the presence key does not
  hold a string and every listed id has such a snapshot; this is the state that
  \<^verbatim>\<open>redis__update_presence_for_device\<close> builds when it is called with validated infos
  under their own device id.
\<close>

definition zrem :: "string \<Rightarrow> string \<Rightarrow> redis \<Rightarrow> redis" where
  "zrem key m s =
     (case kv s key of Some (RZSet zs) \<Rightarrow> redis_write_zset key (without m zs) s | _ \<Rightarrow> s)"

definition active_ids :: "redis \<Rightarrow> string \<Rightarrow> real \<Rightarrow> int \<Rightarrow> string list" where
  "active_ids s client_ip now expiration_secs =
     map fst (zsorted (fresh (now - real_of_int expiration_secs)
                         (zset_of s (redis__presence_prefix client_ip))))"

definition has_snapshot :: "redis \<Rightarrow> string \<Rightarrow> string \<Rightarrow> bool" where
  "has_snapshot s client_ip dev_id =
     (case kv (expire_due s) (redis__device_info_prefix client_ip dev_id) of
        Some (RString raw) \<Rightarrow> raw \<noteq> []
      | _ \<Rightarrow> False)"

definition snapshot_ok :: "(string \<Rightarrow> error + json) \<Rightarrow> redis \<Rightarrow> string \<Rightarrow> string \<Rightarrow> bool" where
  "snapshot_ok loads s client_ip dev_id =
     (case kv (expire_due s) (redis__device_info_prefix client_ip dev_id) of
        None \<Rightarrow> True
      | Some (RZSet _) \<Rightarrow> False
      | Some (RString raw) \<Rightarrow>
          raw = [] \<or>
          (case DeviceInfo_from_json loads raw of
             Inl _ \<Rightarrow> False
           | Inr dinfo \<Rightarrow> DeviceInfo.device_id dinfo = dev_id))"

definition presence_ok :: "(string \<Rightarrow> error + json) \<Rightarrow> redis \<Rightarrow> string \<Rightarrow> bool" where
  "presence_ok loads s client_ip =
     (\<not> is_string (expire_due s) (redis__presence_prefix client_ip)
      \<and> list_all (\<lambda>(dev_id, _). snapshot_ok loads s client_ip dev_id)
           (zset_of s (redis__presence_prefix client_ip)))"

text \<open>
  A second device, and the store in which \<open>dev_A\<close> was seen at time 0 and \<open>dev_B\<close> five
  seconds later, read after eleven seconds: the snapshot of \<open>dev_A\<close> has expired, its
  presence score is still listed.
\<close>

definition dev_B :: string where
  "dev_B = replicate 32 (CHR ''B'')"

definition info_B :: DeviceInfo where
  "info_B = \<lparr>DeviceInfo.device_id = dev_B, hostname = ''mainsail'', os = ''Linux'',
              arch = ''aarch64'', octopi_version = [], rpi_model = ''Raspberry Pi 3'',
              printerprofile = ''Ender 3''\<rparr>"

definition presence_with_expired_snapshot :: redis where
  "presence_with_expired_snapshot =
     redis_advance 6 (fst (redis__update_presence_for_device json_dumps 0
       (redis_advance 5 (fst (redis__update_presence_for_device json_dumps 0 redis_empty
          ''ip1'' dev_A info_A (Some 0) 10)))
       ''ip1'' dev_B info_B (Some 5) 10))"

subsection \<open>Payloads in validated form\<close>




subsection \<open>Presence updates and the latest payload\<close>

text \<open>
  \<open>tracked dumps loads client_ip s latest\<close>: the store \<open>s\<close> comes from the empty store
  by calls of the four operations under the client address \<open>client_ip\<close>, with any
  arguments, and by time passing, and \<open>latest\<close> gives for each device id the payload of
  the most recent call of \<^verbatim>\<open>redis__update_presence_for_device\<close> for it that did not
  raise (with a window that is not positive the call raises and stores no payload).
  \<open>snapshots_latest\<close> is the invariant of these stores: each info key holds the
  serialized latest payload of its device.
\<close>

inductive tracked ::
    "(json \<Rightarrow> string) \<Rightarrow> (string \<Rightarrow> error + json) \<Rightarrow> string \<Rightarrow> redis
      \<Rightarrow> (string \<Rightarrow> DeviceInfo option) \<Rightarrow> bool"
  for dumps :: "json \<Rightarrow> string" and loads :: "string \<Rightarrow> error + json" and client_ip :: string
where
  tracked_empty: "tracked dumps loads client_ip redis_empty (\<lambda>d. None)"
| tracked_advance:
    "tracked dumps loads client_ip s latest \<Longrightarrow> 0 \<le> dt \<Longrightarrow>
     tracked dumps loads client_ip (redis_advance dt s) latest"
| tracked_update:
    "tracked dumps loads client_ip s latest \<Longrightarrow> 0 < expiration_secs \<Longrightarrow>
     tracked dumps loads client_ip
       (fst (redis__update_presence_for_device dumps time_time s client_ip dev_id device_info
               cur_time expiration_secs))
       (latest(dev_id \<mapsto> device_info))"
| tracked_update_rejected:
    "tracked dumps loads client_ip s latest \<Longrightarrow> expiration_secs \<le> 0 \<Longrightarrow>
     tracked dumps loads client_ip
       (fst (redis__update_presence_for_device dumps time_time s client_ip dev_id device_info
               cur_time expiration_secs))
       latest"
| tracked_list:
    "tracked dumps loads client_ip s latest \<Longrightarrow>
     tracked dumps loads client_ip
       (fst (redis__active_devices_for_client_ip loads time_time s client_ip cur_time
               expiration_secs))
       latest"
| tracked_push:
    "tracked dumps loads client_ip s latest \<Longrightarrow>
     tracked dumps loads client_ip
       (fst (redis__push_message_for_device dumps time_time s client_ip dev_id message cur_time
               expiration_secs))
       latest"
| tracked_pull:
    "tracked dumps loads client_ip s latest \<Longrightarrow>
     tracked dumps loads client_ip
       (fst (redis__pull_messages_for_device loads time_time s client_ip dev_id message_count
               cur_time expiration_secs))
       latest"






subsection \<open>Cutoffs that binary64 computes exactly\<close>

text \<open>
  The source computes the cutoff \<^verbatim>\<open>t - expiration_secs\<close> in Python floats (IEEE binary64),
  the functions above compute it in \<open>real\<close>. The two agree where the subtraction is
  exact. \<open>binary64_exact q x\<close>: \<open>x\<close> is \<open>k / 2 ^ q\<close> for an integer \<open>k\<close> of magnitude at
  most \<open>2 ^ 53\<close>, which for \<open>q \<le> 1074\<close> is a binary64 number. \<open>cutoff_exact t
  expiration_secs\<close>: for one such \<open>q\<close> both \<open>t\<close> and \<open>t - expiration_secs\<close> are of this
  form, and \<open>expiration_secs\<close> converts to binary64 without rounding; the IEEE subtraction
  then returns the difference itself. (A value of \<^verbatim>\<open>time.time()\<close> between the years 2004
  and 2038 is a multiple of \<open>2 ^ -22\<close> below \<open>2 ^ 31\<close>: it satisfies the predicate with
  \<open>q = 22\<close> and any window up to \<open>2 ^ 30\<close> seconds.)
\<close>

definition binary64_exact :: "nat \<Rightarrow> real \<Rightarrow> bool" where
  "binary64_exact q x \<longleftrightarrow>
     real_of_int \<lfloor>x * 2 ^ q\<rfloor> = x * 2 ^ q \<and> \<bar>x * 2 ^ q\<bar> \<le> 2 ^ 53"

definition cutoff_exact :: "real \<Rightarrow> int \<Rightarrow> bool" where
  "cutoff_exact t expiration_secs \<longleftrightarrow>
     \<bar>expiration_secs\<bar> \<le> 2 ^ 53
     \<and> (\<exists>q \<in> {0..1074}. binary64_exact q t \<and> binary64_exact q (t - real_of_int expiration_secs))"

subsection \<open>The order of three calls\<close>

text \<open>The six orders in which three calls can be made.\<close>

definition call_orders :: "'a \<Rightarrow> 'a \<Rightarrow> 'a \<Rightarrow> 'a list list" where
  "call_orders a b c = [[a, b, c], [a, c, b], [b, a, c], [b, c, a], [c, a, b], [c, b, a]]"

subsection \<open>A snapshot that does not parse\<close>

text \<open>
  A \<^verbatim>\<open>DeviceInfo\<close> with a blank hostname (the dataclass accepts it, the serializer does
  not), and the store after two presence updates at time 100 under one client address:
  \<open>dev_B\<close> with this payload, then \<open>dev_A\<close> with the valid \<open>info_A\<close>.
\<close>

definition info_B_blank :: DeviceInfo where
  "info_B_blank = info_B\<lparr>hostname := []\<rparr>"

definition presence_with_blank_hostname :: redis where
  "presence_with_blank_hostname =
     fst (redis__update_presence_for_device json_dumps 0
       (fst (redis__update_presence_for_device json_dumps 0 redis_empty
          ''ip1'' dev_B info_B_blank (Some 100) 10))
       ''ip1'' dev_A info_A (Some 100) 10)"

section \<open>Properties\<close>

lemma expire_due_idem: "expire_due (expire_due s) = expire_due s"
  by (simp add: expire_due_def alive_def fun_eq_iff split: option.splits)

lemma presence_key_neq_info_key:
  "redis__presence_prefix ip \<noteq> redis__device_info_prefix ip d"
  by (simp add: redis__presence_prefix_def redis__device_info_prefix_def)

subsection \<open>Sorted-set bookkeeping\<close>

lemma map_of_filter_neq: "map_of (filter (\<lambda>(m', _). m' \<noteq> m) zs) m = None"
  by (induction zs) auto

lemma map_of_zadd:
  "map_of (filter (\<lambda>(m', _). m' \<noteq> m) zs @ [(m, sc)]) m' =
     (if m' = m then Some sc else map_of zs m')"
  by (induction zs) (auto simp: map_of_filter_neq)

subsection \<open>The operations as store updates\<close>

lemma settled_expire_due: "settled (expire_due s)"
  by (auto simp: settled_def expire_due_def alive_def split: option.splits)

lemma expire_due_settled: "settled s \<Longrightarrow> expire_due s = s"
  by (auto simp: settled_def expire_due_def fun_eq_iff intro!: redis.equality)

lemma redis_write_settled: "settled s \<Longrightarrow> redis_write k v s = s\<lparr>kv := (kv s)(k \<mapsto> v)\<rparr>"
  by (auto simp: settled_def redis_write_def fun_eq_iff intro!: redis.equality)

lemma redis_del_absent: "settled s \<Longrightarrow> kv s k = None \<Longrightarrow> redis_del k s = s"
  by (auto simp: settled_def redis_del_def fun_eq_iff intro!: redis.equality)

lemma fresh_empty_without: "fresh mx zs = [] \<Longrightarrow> without m (fresh mx zs) = []"
  by (simp add: without_def)

lemma push_store:
  "fst (redis__push_message_for_device dumps tm s ip d m (Some t) W)
   = pushed (redis__to_device_message_queue_prefix ip d) (DeviceMessage_to_json dumps m) t W (expire_due s)"
proof -
  have st: "settled (expire_due s)" by (simp add: settled_expire_due)
  show ?thesis
  proof (cases "kv (expire_due s) (redis__to_device_message_queue_prefix ip d)")
    case None
    then show ?thesis using st
      by (simp add: redis__push_message_for_device_def Let_def zremrangebyscore_def zadd_def expire_def
          redis_write_settled redis_del_def pushed_def is_string_def zset_at_def fresh_def without_def)
  next
    case (Some v)
    show ?thesis
    proof (cases v)
      case (RString x1)
      then show ?thesis using Some st
        by (simp add: redis__push_message_for_device_def Let_def zremrangebyscore_def zadd_def expire_def
            redis_write_settled redis_del_def pushed_def is_string_def zset_at_def)
    next
      case (RZSet zs)
      then show ?thesis using Some st
        by (simp del: filter_filter add: redis__push_message_for_device_def Let_def zremrangebyscore_def zadd_def expire_def
            redis_write_def redis_del_def redis_write_zset_def pushed_def is_string_def zset_at_def fresh_def without_def)
    qed
  qed
qed

lemma push_result:
  "snd (redis__push_message_for_device dumps tm s ip d m (Some t) W)
   = (if is_string (expire_due s) (redis__to_device_message_queue_prefix ip d) then Inl ResponseError else Inr ())"
  by (simp add: redis__push_message_for_device_def Let_def zremrangebyscore_def zadd_def expire_def
            redis_write_def redis_del_def redis_write_zset_def is_string_def err_of_def split_beta
         split: option.splits rvalue.splits)

lemma pull_store:
  "fst (redis__pull_messages_for_device loads tm s ip d n (Some t) W)
   = pulled (redis__to_device_message_queue_prefix ip d) n (t - real_of_int W) (expire_due s)"
proof -
  have st: "settled (expire_due s)" by (simp add: settled_expire_due)
  show ?thesis
  proof (cases "kv (expire_due s) (redis__to_device_message_queue_prefix ip d)")
    case None
    then show ?thesis using st
      by (simp add: redis__pull_messages_for_device_def Let_def zremrangebyscore_def zpopmin_def
          redis_del_absent pulled_def is_string_def zset_at_def fresh_def redis_write_zset_def zsorted_def)
  next
    case (Some v)
    show ?thesis
    proof (cases v)
      case (RString x1)
      then show ?thesis using Some st
        by (simp add: redis__pull_messages_for_device_def Let_def zremrangebyscore_def zpopmin_def
            pulled_def is_string_def zset_at_def)
    next
      case (RZSet zs)
      then show ?thesis using Some st
        by (simp add: redis__pull_messages_for_device_def Let_def zremrangebyscore_def zpopmin_def
            redis_write_def redis_del_def redis_write_zset_def pulled_def is_string_def zset_at_def fresh_def zsorted_def)
    qed
  qed
qed

lemma pull_result:
  "snd (redis__pull_messages_for_device loads tm s ip d n (Some t) W)
   = (if is_string (expire_due s) (redis__to_device_message_queue_prefix ip d) then Inl ResponseError
      else parse_messages loads (take n (zsorted (fresh (t - real_of_int W)
              (zset_at (expire_due s) (redis__to_device_message_queue_prefix ip d))))))"
  by (simp add: redis__pull_messages_for_device_def Let_def zremrangebyscore_def zpopmin_def
            redis_write_def redis_del_def redis_write_zset_def is_string_def zset_at_def fresh_def zsorted_def split_beta
         split: option.splits rvalue.splits)

lemma update_store:
  "fst (redis__update_presence_for_device dumps tm s ip d info (Some t) W)
   = updated (redis__presence_prefix ip) (redis__device_info_prefix ip d) d (DeviceInfo_to_json dumps info) t W (expire_due s)"
proof -
  have st: "settled (expire_due s)" by (simp add: settled_expire_due)
  note ne = presence_key_neq_info_key[of ip d]
  show ?thesis
  proof (cases "kv (expire_due s) (redis__presence_prefix ip)")
    case None
    then show ?thesis using st ne
      by (auto simp add: redis__update_presence_for_device_def Let_def zadd_def expire_def setex_def
          redis_write_settled redis_del_def updated_def is_string_def zset_at_def without_def
          fun_eq_iff intro!: redis.equality)
  next
    case (Some v)
    show ?thesis
    proof (cases v)
      case (RString x1)
      then show ?thesis using Some st ne
      by (auto simp add: redis__update_presence_for_device_def Let_def zadd_def expire_def setex_def
          redis_write_settled redis_del_def updated_def is_string_def zset_at_def without_def
          fun_eq_iff intro!: redis.equality)
    next
      case (RZSet zs)
      then show ?thesis using Some st ne
      by (auto simp add: redis__update_presence_for_device_def Let_def zadd_def expire_def setex_def
          redis_write_settled redis_del_def updated_def is_string_def zset_at_def without_def
          fun_eq_iff intro!: redis.equality)
    qed
  qed
qed

lemma update_result:
  "snd (redis__update_presence_for_device dumps tm s ip d info (Some t) W)
   = (if is_string (expire_due s) (redis__presence_prefix ip) \<or> W \<le> 0 then Inl ResponseError else Inr ())"
  by (simp add: redis__update_presence_for_device_def Let_def zadd_def expire_def setex_def
            redis_write_def redis_del_def is_string_def err_of_def split_beta
         split: option.splits rvalue.splits)

lemma get_device_infos_cong:
  "(\<And>d. d \<in> set ids \<Longrightarrow> kv s (redis__device_info_prefix ip d) = kv s' (redis__device_info_prefix ip d))
   \<Longrightarrow> get_device_infos ip ids s = get_device_infos ip ids s'"
  by (induction ids) (auto simp: redis_get_def split: option.splits rvalue.splits)


lemma filter_fresh_ge:
  "filter (\<lambda>(m, sc). mx \<le> sc) (zsorted (fresh mx zs)) = zsorted (fresh mx zs)"
proof -
  have "\<forall>x \<in> set (zsorted (fresh mx zs)). (\<lambda>(m, sc). mx \<le> sc) x"
    by (auto simp: zsorted_def fresh_def)
  then show ?thesis by (simp add: filter_id_conv)
qed

lemma list_store:
  "fst (redis__active_devices_for_client_ip loads tm s ip (Some t) W)
   = pruned (redis__presence_prefix ip) (t - real_of_int W) (expire_due s)"
proof -
  have st: "settled (expire_due s)" by (simp add: settled_expire_due)
  show ?thesis
  proof (cases "kv (expire_due s) (redis__presence_prefix ip)")
    case None
    then show ?thesis using st
      by (simp add: redis__active_devices_for_client_ip_def Let_def zremrangebyscore_def zrangebyscore_def
          redis_del_absent pruned_def is_string_def zset_at_def fresh_def redis_write_zset_def)
  next
    case (Some v)
    show ?thesis
    proof (cases v)
      case (RString x1)
      then show ?thesis using Some st
        by (simp add: redis__active_devices_for_client_ip_def Let_def zremrangebyscore_def zrangebyscore_def
            pruned_def is_string_def zset_at_def)
    next
      case (RZSet zs)
      then show ?thesis using Some st
        by (simp add: redis__active_devices_for_client_ip_def Let_def zremrangebyscore_def zrangebyscore_def
            redis_write_def redis_del_def redis_write_zset_def pruned_def is_string_def zset_at_def fresh_def)
    qed
  qed
qed

lemma list_result:
  "snd (redis__active_devices_for_client_ip loads tm s ip (Some t) W)
   = (if is_string (expire_due s) (redis__presence_prefix ip) then Inl ResponseError
      else fetch_infos loads ip
             (map fst (zsorted (fresh (t - real_of_int W) (zset_at (expire_due s) (redis__presence_prefix ip)))))
             (expire_due s))"
proof -
  let ?s0 = "expire_due s" and ?key = "redis__presence_prefix ip" and ?mx = "t - real_of_int W"
  have get: "get_device_infos ip ids (redis_write ?key v ?s0) = get_device_infos ip ids ?s0" for ids v
    by (rule get_device_infos_cong) (simp add: redis_write_def presence_key_neq_info_key[symmetric])
  show ?thesis
  proof (cases "kv ?s0 ?key")
    case None
    then show ?thesis
      by (simp add: redis__active_devices_for_client_ip_def Let_def zremrangebyscore_def zrangebyscore_def
          is_string_def zset_at_def fresh_def fetch_infos_def zsorted_def)
  next
    case (Some v)
    show ?thesis
    proof (cases v)
      case (RString x1)
      then show ?thesis using Some
        by (simp add: redis__active_devices_for_client_ip_def Let_def zremrangebyscore_def zrangebyscore_def
            is_string_def zset_at_def)
    next
      case (RZSet zs)
      show ?thesis
      proof (cases "fresh ?mx zs = []")
        case True
        then show ?thesis using Some RZSet
          by (simp add: redis__active_devices_for_client_ip_def Let_def zremrangebyscore_def zrangebyscore_def
              is_string_def zset_at_def fresh_def[symmetric] fetch_infos_def zsorted_def redis_write_zset_def redis_del_def)
      next
        case False
        have kvw: "kv (redis_write ?key (RZSet (fresh ?mx zs)) ?s0) ?key = Some (RZSet (fresh ?mx zs))"
          by (simp add: redis_write_def)
        from False show ?thesis using Some RZSet get filter_fresh_ge[of ?mx zs] kvw
          by (simp add: redis__active_devices_for_client_ip_def Let_def zremrangebyscore_def zrangebyscore_def
              is_string_def zset_at_def fresh_def[symmetric] fetch_infos_def redis_write_zset_def)
      qed
    qed
  qed
qed

lemma settled_pushed: "settled s \<Longrightarrow> settled (pushed key raw t W s)"
  by (auto simp: settled_def alive_def pushed_def redis_del_def is_string_def split: option.splits if_splits rvalue.splits)

lemma settled_updated: "settled s \<Longrightarrow> settled (updated key ikey d raw t W s)"
  by (auto simp: settled_def alive_def updated_def redis_del_def is_string_def split: option.splits if_splits rvalue.splits)

lemma settled_write_zset: "settled s \<Longrightarrow> settled (redis_write_zset key zs s)"
  by (auto simp: settled_def alive_def redis_write_zset_def redis_write_def redis_del_def split: option.splits if_splits)

lemma settled_pulled: "settled s \<Longrightarrow> settled (pulled key n mx s)"
  by (simp add: pulled_def settled_write_zset)


lemma without_idem: "without m (without m zs @ [(m, sc)]) = without m zs"
  by (induction zs) (auto simp: without_def)

lemma fresh_without: "fresh mx (without m zs) = without m (fresh mx zs)"
  by (induction zs) (auto simp: without_def fresh_def)

lemma fresh_append: "fresh mx (xs @ ys) = fresh mx xs @ fresh mx ys"
  by (simp add: fresh_def)

lemma fresh_idem: "fresh mx (fresh mx zs) = fresh mx zs"
  by (simp add: fresh_def)

lemma pushed_idem: "pushed key raw t W (pushed key raw t W s) = pushed key raw t W s"
proof (cases "W \<le> 0")
  case True
  then show ?thesis by (simp add: pushed_def redis_del_def)
next
  case False
  then have fr: "fresh (t - real_of_int W) [(raw, t)] = [(raw, t)]" by (simp add: fresh_def)
  have "fresh (t - real_of_int W) (without raw (fresh (t - real_of_int W) zs) @ [(raw, t)])
         = without raw (fresh (t - real_of_int W) zs) @ [(raw, t)]" for zs
    by (simp only: fresh_append fresh_without fresh_idem fr)
  then show ?thesis using False
    by (auto simp: pushed_def is_string_def zset_at_def without_idem fun_eq_iff
        split: option.splits rvalue.splits intro!: redis.equality)
qed

lemma updated_idem:
  "key \<noteq> ikey \<Longrightarrow> updated key ikey d raw t W (updated key ikey d raw t W s) = updated key ikey d raw t W s"
  by (auto simp: updated_def redis_del_def is_string_def zset_at_def without_idem fun_eq_iff
        split: option.splits rvalue.splits intro!: redis.equality)

subsection \<open>Presence: the recorded score\<close>

text \<open>
  Claim C6. When device \<open>dev_id\<close> already has a presence score \<open>sc\<close> recorded under a
  client address, \<^verbatim>\<open>redis__update_presence_for_device\<close> called with time \<open>now\<close> leaves
  \<open>now\<close> as the recorded score, whatever the order of \<open>now\<close> and \<open>sc\<close> (in particular
  when \<open>now < sc\<close>). The presence window is positive, as both of its uses require.
\<close>

theorem C6_update_overwrites_score:
  assumes "zscore s (redis__presence_prefix client_ip) dev_id = Some sc"
    and "0 < expiration_secs"
  shows "zscore (fst (redis__update_presence_for_device dumps time_time s client_ip dev_id
            device_info (Some now) expiration_secs)) (redis__presence_prefix client_ip) dev_id
         = Some now"
proof -
  obtain zs where zs: "kv (expire_due s) (redis__presence_prefix client_ip) = Some (RZSet zs)"
    using assms(1) by (auto simp: zscore_def zset_of_def split: option.splits rvalue.splits)
  show ?thesis
    using zs assms(2) presence_key_neq_info_key[of client_ip dev_id]
    by (simp add: redis__update_presence_for_device_def zadd_def expire_def setex_def
        redis_write_def zscore_def zset_of_def expire_due_def alive_def Let_def
        map_of_zadd del: map_of_append split: option.splits)
qed

text \<open>
  The device was last seen at 100; an update that carries the older time 50 under the
  default window of 10 seconds records 50.
\<close>

theorem C6_update_overwrites_score_witness:
  "zscore (redis_empty\<lparr>kv := (\<lambda>k. if k = redis__presence_prefix ''10.0.0.1''
                                  then Some (RZSet [(dev_A, 100)]) else None)\<rparr>)
       (redis__presence_prefix ''10.0.0.1'') dev_A = Some 100
   \<and> (0::int) < 10 \<and> (50::real) < 100
   \<and> zscore (fst (redis__update_presence_for_device json_dumps 0
         (redis_empty\<lparr>kv := (\<lambda>k. if k = redis__presence_prefix ''10.0.0.1''
                                   then Some (RZSet [(dev_A, 100)]) else None)\<rparr>)
         ''10.0.0.1'' dev_A info_A (Some 50) 10))
       (redis__presence_prefix ''10.0.0.1'') dev_A = Some 50"
  using C6_update_overwrites_score[of
      "redis_empty\<lparr>kv := (\<lambda>k. if k = redis__presence_prefix ''10.0.0.1''
                                then Some (RZSet [(dev_A, 100)]) else None)\<rparr>"
      "''10.0.0.1''" dev_A 100 10 json_dumps 0 info_A 50]
  by (simp add: zscore_def zset_of_def expire_due_def alive_def redis_empty_def)

subsection \<open>Retrying a write\<close>

text \<open>
  Claim C8. Calling \<^verbatim>\<open>redis__update_presence_for_device\<close> a second time with the same
  client address, device id, info and time leaves the store that the first call left;
  so does a second \<^verbatim>\<open>redis__push_message_for_device\<close> with the same client address,
  device id, message and time. The second call runs at the same instant of the store's
  clock as the first.
\<close>

theorem C8_writes_idempotent:
  "fst (redis__update_presence_for_device dumps time_time
      (fst (redis__update_presence_for_device dumps time_time s client_ip dev_id device_info
              (Some now) expiration_secs))
      client_ip dev_id device_info (Some now) expiration_secs)
   = fst (redis__update_presence_for_device dumps time_time s client_ip dev_id device_info
       (Some now) expiration_secs)
   \<and> fst (redis__push_message_for_device dumps time_time
      (fst (redis__push_message_for_device dumps time_time s client_ip dev_id message
              (Some now) expiration_secs))
      client_ip dev_id message (Some now) expiration_secs)
   = fst (redis__push_message_for_device dumps time_time s client_ip dev_id message
       (Some now) expiration_secs)"
proof
  let ?key = "redis__presence_prefix client_ip"
  let ?ikey = "redis__device_info_prefix client_ip dev_id"
  let ?raw = "DeviceInfo_to_json dumps device_info"
  have ne: "?key \<noteq> ?ikey"
    by (rule presence_key_neq_info_key)
  have "settled (updated ?key ?ikey dev_id ?raw now expiration_secs (expire_due s))"
    by (intro settled_updated settled_expire_due)
  then show "fst (redis__update_presence_for_device dumps time_time
      (fst (redis__update_presence_for_device dumps time_time s client_ip dev_id device_info
              (Some now) expiration_secs))
      client_ip dev_id device_info (Some now) expiration_secs)
   = fst (redis__update_presence_for_device dumps time_time s client_ip dev_id device_info
       (Some now) expiration_secs)"
    by (simp only: update_store expire_due_settled updated_idem[OF ne])
next
  let ?key = "redis__to_device_message_queue_prefix client_ip dev_id"
  let ?raw = "DeviceMessage_to_json dumps message"
  have "settled (pushed ?key ?raw now expiration_secs (expire_due s))"
    by (intro settled_pushed settled_expire_due)
  then show "fst (redis__push_message_for_device dumps time_time
      (fst (redis__push_message_for_device dumps time_time s client_ip dev_id message
              (Some now) expiration_secs))
      client_ip dev_id message (Some now) expiration_secs)
   = fst (redis__push_message_for_device dumps time_time s client_ip dev_id message
       (Some now) expiration_secs)"
    by (simp only: push_store expire_due_settled pushed_idem)
qed

subsection \<open>Mailbox: what a pull returns\<close>

lemma zset_of_eq: "zset_of s key = zset_at (expire_due s) key"
  by (simp add: zset_of_def zset_at_def)

lemma set_zsorted: "set (zsorted zs) = set zs"
  by (simp add: zsorted_def)

lemma set_fresh: "set (fresh mx zs) = {(m, sc). (m, sc) \<in> set zs \<and> mx < sc}"
  by (auto simp: fresh_def)

lemma parse_messages_Inr:
  "parse_messages loads es = Inr msgs \<Longrightarrow>
     list_all2 (\<lambda>e msg. DeviceMessage_from_json loads (fst e) = Inr msg) es msgs"
proof (induction es arbitrary: msgs)
  case Nil
  then show ?case by simp
next
  case (Cons e es)
  obtain raw sc where e: "e = (raw, sc)" by (cases e)
  from Cons.prems e obtain msg rest where
    "DeviceMessage_from_json loads raw = Inr msg" "parse_messages loads es = Inr rest" "msgs = msg # rest"
    by (auto split: sum.splits)
  with Cons.IH e show ?case by simp
qed

lemma list_all2_and_left:
  "list_all2 Q xs ys \<Longrightarrow> (\<forall>e \<in> set xs. P e) \<Longrightarrow> list_all2 (\<lambda>e y. P e \<and> Q e y) xs ys"
  by (induction rule: list_all2_induct) auto

text \<open>The scenario of the specification: one message pushed at time 0, pulled at time 5.\<close>

lemma msg_A_roundtrip:
  "DeviceMessage_from_json json_loads (DeviceMessage_to_json json_dumps msg_A) = Inr msg_A"
  by code_simp

lemma redis_empty_settled: "expire_due redis_empty = redis_empty"
  by (simp add: expire_due_def redis_empty_def alive_def)

lemma pull_after_push_A:
  "snd (redis__pull_messages_for_device json_loads 0
      (fst (redis__push_message_for_device json_dumps 0 redis_empty ''ip1'' dev_A msg_A (Some 0) 60))
      ''ip1'' dev_A 3 (Some 5) 60) = Inr [msg_A]"
  by (simp add: pull_result push_store redis_empty_settled pushed_def is_string_def zset_at_def
      expire_due_def alive_def redis_empty_def fresh_def without_def zsorted_def msg_A_roundtrip)

subsection \<open>Mailbox: a member that does not parse\<close>

lemma msg_B_roundtrip:
  "DeviceMessage_from_json json_loads (DeviceMessage_to_json json_dumps msg_B) = Inr msg_B"
  by code_simp

lemma msg_C_roundtrip:
  "DeviceMessage_from_json json_loads (DeviceMessage_to_json json_dumps msg_C) = Inr msg_C"
  by code_simp

lemma garbage_unparseable: "DeviceMessage_from_json json_loads ''garbage'' = Inl JSONDecodeError"
  by code_simp

lemma msg_A_json_neq_garbage: "DeviceMessage_to_json json_dumps msg_A \<noteq> ''garbage''"
  by code_simp

lemma msg_blank_type_invalid:
  "DeviceMessage_from_json json_loads (DeviceMessage_to_json json_dumps msg_blank_type)
     = Inl ValidationError"
  by code_simp

text \<open>
  Claim C1. The claim is that a pull whose mailbox holds a member that is not a
  serialized \<^verbatim>\<open>DeviceMessage\<close> drops that member and returns the others. The code
  does not: \<^verbatim>\<open>DeviceMessage.from_json\<close> raises (\<^verbatim>\<open>json.loads\<close> on text that is not
  JSON, \<^verbatim>\<open>is_valid(raise_exception=True)\<close> on a document that fails validation) and
  never returns \<^verbatim>\<open>None\<close>, so the test \<^verbatim>\<open>if msg is not None\<close> that was meant to skip such
  a member never gets to run. On the mailbox that holds \<^verbatim>\<open>garbage\<close> and the serialized
  \<open>msg_A\<close> the pull at time 5 raises \<^verbatim>\<open>JSONDecodeError\<close>, and the queue is empty
  afterwards: the well-formed message has been popped and is lost. A message with a
  blank type, pushed through \<^verbatim>\<open>redis__push_message_for_device\<close> itself, makes the next
  pull raise \<^verbatim>\<open>ValidationError\<close>.
\<close>

theorem C1_pull_raises_on_malformed:
  "snd (redis__pull_messages_for_device json_loads 0 mailbox_with_garbage ''ip1'' dev_A 3 (Some 5) 60)
     = Inl JSONDecodeError
   \<and> zset_of (fst (redis__pull_messages_for_device json_loads 0 mailbox_with_garbage
                    ''ip1'' dev_A 3 (Some 5) 60))
        (redis__to_device_message_queue_prefix ''ip1'' dev_A) = []
   \<and> snd (redis__pull_messages_for_device json_loads 0
        (fst (redis__push_message_for_device json_dumps 0 redis_empty ''ip1'' dev_A
                msg_blank_type (Some 0) 60))
        ''ip1'' dev_A 3 (Some 5) 60) = Inl ValidationError"
  by (simp add: push_store pushed_def without_def msg_blank_type_invalid pull_result pull_store pulled_def is_string_def zset_at_def zset_of_eq
      expire_due_def alive_def redis_empty_def fresh_def zsorted_def mailbox_with_garbage_def
      garbage_unparseable redis_write_zset_def redis_del_def)

subsection \<open>Stores after a push, a pull, and a wait\<close>

lemma clock_pushed [simp]: "clock (pushed key raw t W s) = clock s"
  by (simp add: pushed_def redis_del_def)

lemma zset_at_pushed:
  "0 < W \<Longrightarrow> \<not> is_string s key \<Longrightarrow>
   zset_at (pushed key raw t W s) key
     = without raw (fresh (t - real_of_int W) (zset_at s key)) @ [(raw, t)]"
  by (simp add: pushed_def zset_at_def)

lemma is_string_pushed: "0 < W \<Longrightarrow> is_string (pushed key raw t W s) key = is_string s key"
  by (simp add: pushed_def is_string_def)

lemma expires_pushed:
  "0 < W \<Longrightarrow> expires (pushed key raw t W s) key = Some (clock s + real_of_int W)"
  by (simp add: pushed_def)

lemma kv_advance_alive:
  assumes "settled s" and "expires s key = Some dl" and "clock s + dt < dl"
  shows "kv (redis_advance dt s) key = kv s key"
    and "expires (redis_advance dt s) key = Some dl"
  using assms
  by (auto simp: redis_advance_def expire_due_def alive_def settled_def split: option.splits)

lemma clock_advance [simp]: "clock (redis_advance dt s) = clock s + dt"
  by (simp add: redis_advance_def expire_due_def)

lemma settled_advance: "settled (redis_advance dt s)"
  by (simp add: redis_advance_def settled_expire_due)

lemma zset_at_cong: "kv s key = kv s' key \<Longrightarrow> zset_at s key = zset_at s' key"
  by (simp add: zset_at_def)

lemma is_string_cong: "kv s key = kv s' key \<Longrightarrow> is_string s key = is_string s' key"
  by (simp add: is_string_def)

lemma clock_pulled [simp]: "clock (pulled key n mx s) = clock s"
  by (simp add: pulled_def redis_write_zset_def redis_del_def redis_write_def)

lemma zset_at_pulled:
  "\<not> is_string s key \<Longrightarrow>
   zset_at (pulled key n mx s) key = drop n (zsorted (fresh mx (zset_at s key)))"
  by (simp add: pulled_def zset_at_def redis_write_zset_def redis_del_def redis_write_def)

lemma is_string_pulled: "is_string (pulled key n mx s) key = is_string s key"
  by (auto simp: pulled_def is_string_def redis_write_zset_def redis_del_def redis_write_def
      split: option.splits rvalue.splits)

lemma expires_pulled:
  "\<not> is_string s key \<Longrightarrow> drop n (zsorted (fresh mx (zset_at s key))) \<noteq> [] \<Longrightarrow>
   expires (pulled key n mx s) key = expires s key"
  by (auto simp: pulled_def zset_at_def is_string_def redis_write_zset_def redis_write_def zsorted_def fresh_def
      split: option.splits rvalue.splits)

lemma parse_messages_length:
  "parse_messages loads es = Inr msgs \<Longrightarrow> length msgs = length es"
  by (induction es arbitrary: msgs) (auto split: sum.splits)

lemma zsorted3_any:
  assumes "t1 < t2" "t2 < t3" "zs \<in> set (call_orders (r1, t1) (r2, t2) (r3, t3))"
  shows "zsorted zs = [(r1, t1), (r2, t2), (r3, t3)]"
  using assms by (auto simp: call_orders_def zsorted_def)

subsection \<open>Mailbox: oldest first\<close>

text \<open>
  Claim C4 (amended). Three valid messages with pairwise distinct serialized payloads
  are pushed with the times \<open>t1 < t2 < t3\<close> into a mailbox that did not exist. The three
  calls are made in any order: \<open>ma\<close> with the time \<open>ua\<close> is pushed first, then \<open>mb\<close> with
  \<open>ub\<close>, then \<open>mc\<close> with \<open>uc\<close>, and these are the three messages with their times in one
  of the six orders. All times are within the message window of the pull time \<open>now\<close>
  (\<open>now - W < t1\<close> and \<open>t3 \<le> now\<close>), and every cutoff that the calls compute is exact in
  binary64. A pull of at most 2 at \<open>now\<close> returns the messages of \<open>t1\<close> and \<open>t2\<close>, in
  that order, whatever the order of the calls was, and a later pull at \<open>now'\<close>, still
  within the window of \<open>t3\<close>, returns the message of \<open>t3\<close>. The store's clock may
  advance between the calls (\<open>d1\<close> .. \<open>d4\<close>) as long as the queue key, whose
  time-to-live each push sets to \<open>W\<close> and no pull renews, stays alive. For every store,
  a pull that returns gives at most \<open>n\<close> messages.
\<close>

theorem C4_fifo_by_time:
  fixes s :: redis and W :: int and client_ip dev_id :: string
    and dumps :: "json \<Rightarrow> string" and loads :: "string \<Rightarrow> error + json"
    and time_time t1 t2 t3 ua ub uc now now' d1 d2 d3 d4 :: real
    and m1 m2 m3 ma mb mc :: DeviceMessage
  defines "key \<equiv> redis__to_device_message_queue_prefix client_ip dev_id"
  defines "s1 \<equiv> fst (redis__push_message_for_device dumps time_time s client_ip dev_id ma (Some ua) W)"
  defines "s2 \<equiv> fst (redis__push_message_for_device dumps time_time (redis_advance d1 s1)
                        client_ip dev_id mb (Some ub) W)"
  defines "s3 \<equiv> fst (redis__push_message_for_device dumps time_time (redis_advance d2 s2)
                        client_ip dev_id mc (Some uc) W)"
  defines "p1 \<equiv> redis__pull_messages_for_device loads time_time (redis_advance d3 s3)
                   client_ip dev_id 2 (Some now) W"
  defines "p2 \<equiv> redis__pull_messages_for_device loads time_time (redis_advance d4 (fst p1))
                   client_ip dev_id 2 (Some now') W"
  assumes absent: "kv (expire_due s) key = None"
    and calls: "[(ma, ua), (mb, ub), (mc, uc)] \<in> set (call_orders (m1, t1) (m2, t2) (m3, t3))"
    and times: "t1 < t2" "t2 < t3" "now - real_of_int W < t1" "t3 \<le> now" "now' - real_of_int W < t3"
    and exact: "cutoff_exact t1 W" "cutoff_exact t2 W" "cutoff_exact t3 W"
               "cutoff_exact now W" "cutoff_exact now' W"
    and payloads: "distinct [DeviceMessage_to_json dumps m1, DeviceMessage_to_json dumps m2,
                             DeviceMessage_to_json dumps m3]"
    and valid: "DeviceMessage_from_json loads (DeviceMessage_to_json dumps m1) = Inr m1"
               "DeviceMessage_from_json loads (DeviceMessage_to_json dumps m2) = Inr m2"
               "DeviceMessage_from_json loads (DeviceMessage_to_json dumps m3) = Inr m3"
    and waits: "0 \<le> d1" "d1 < real_of_int W" "0 \<le> d2" "d2 < real_of_int W"
               "0 \<le> d3" "0 \<le> d4" "d3 + d4 < real_of_int W"
  shows "snd p1 = Inr [m1, m2] \<and> snd p2 = Inr [m3]
         \<and> (\<forall>s0 n now0 msgs. snd (redis__pull_messages_for_device loads time_time s0 client_ip
                 dev_id n (Some now0) W) = Inr msgs \<longrightarrow> length msgs \<le> n)"
proof -
  let ?r1 = "DeviceMessage_to_json dumps m1"
  let ?r2 = "DeviceMessage_to_json dumps m2"
  let ?r3 = "DeviceMessage_to_json dumps m3"
  let ?ra = "DeviceMessage_to_json dumps ma"
  let ?rb = "DeviceMessage_to_json dumps mb"
  let ?rc = "DeviceMessage_to_json dumps mc"
  let ?s0 = "expire_due s"
  let ?zs = "[(?ra, ua), (?rb, ub), (?rc, uc)]"
  have W: "0 < W" using times by linarith
  have ne: "?ra \<noteq> ?rb" "?ra \<noteq> ?rc" "?rb \<noteq> ?rc"
    using payloads calls by (auto simp: call_orders_def)
  have win: "ub - real_of_int W < ua" "uc - real_of_int W < ua" "uc - real_of_int W < ub"
    using calls times by (auto simp: call_orders_def)
  have win': "now - real_of_int W < ua" "now - real_of_int W < ub" "now - real_of_int W < uc"
    using calls times by (auto simp: call_orders_def)
  have ord: "?zs \<in> set (call_orders (?r1, t1) (?r2, t2) (?r3, t3))"
    using calls by (auto simp: call_orders_def)
  have sorted: "zsorted ?zs = [(?r1, t1), (?r2, t2), (?r3, t3)]"
    by (rule zsorted3_any[OF times(1,2) ord])
  \<comment> \<open>first push\<close>
  have s1: "s1 = pushed key ?ra ua W ?s0"
    by (simp add: s1_def key_def push_store)
  have st0: "settled ?s0" by (rule settled_expire_due)
  have ns0: "\<not> is_string ?s0 key" and z0: "zset_at ?s0 key = []"
    using absent by (simp_all add: is_string_def zset_at_def)
  have st1: "settled s1" unfolding s1 by (rule settled_pushed[OF st0])
  have z1: "zset_at s1 key = [(?ra, ua)]"
    unfolding s1 using W ns0 z0 by (simp add: zset_at_pushed fresh_def without_def)
  have ns1: "\<not> is_string s1 key" unfolding s1 using W ns0 by (simp add: is_string_pushed)
  have e1: "expires s1 key = Some (clock s1 + real_of_int W)"
    unfolding s1 using W by (simp add: expires_pushed)
  \<comment> \<open>wait, second push\<close>
  let ?a1 = "redis_advance d1 s1"
  have a1: "kv ?a1 key = kv s1 key"
    using kv_advance_alive(1)[OF st1 e1] waits by simp
  have s2: "s2 = pushed key ?rb ub W ?a1"
    by (simp add: s2_def key_def push_store expire_due_settled settled_advance)
  have st2: "settled s2" unfolding s2 by (rule settled_pushed[OF settled_advance])
  have ns2: "\<not> is_string s2 key"
    unfolding s2 using W ns1 is_string_cong[OF a1] by (simp add: is_string_pushed)
  have z2: "zset_at s2 key = [(?ra, ua), (?rb, ub)]"
    unfolding s2 using W ns1 z1 is_string_cong[OF a1] zset_at_cong[OF a1] win ne
    by (simp add: zset_at_pushed fresh_def without_def)
  have e2: "expires s2 key = Some (clock s2 + real_of_int W)"
    unfolding s2 using W by (simp add: expires_pushed)
  \<comment> \<open>wait, third push\<close>
  let ?a2 = "redis_advance d2 s2"
  have a2: "kv ?a2 key = kv s2 key"
    using kv_advance_alive(1)[OF st2 e2] waits by simp
  have s3: "s3 = pushed key ?rc uc W ?a2"
    by (simp add: s3_def key_def push_store expire_due_settled settled_advance)
  have st3: "settled s3" unfolding s3 by (rule settled_pushed[OF settled_advance])
  have ns3: "\<not> is_string s3 key"
    unfolding s3 using W ns2 is_string_cong[OF a2] by (simp add: is_string_pushed)
  have z3: "zset_at s3 key = ?zs"
    unfolding s3 using W ns2 z2 is_string_cong[OF a2] zset_at_cong[OF a2] win ne
    by (simp add: zset_at_pushed fresh_def without_def)
  have e3: "expires s3 key = Some (clock s3 + real_of_int W)"
    unfolding s3 using W by (simp add: expires_pushed)
  \<comment> \<open>wait, first pull\<close>
  let ?a3 = "redis_advance d3 s3"
  have lt3: "clock s3 + d3 < clock s3 + real_of_int W" using waits by simp
  have a3: "kv ?a3 key = kv s3 key" and ea3: "expires ?a3 key = Some (clock s3 + real_of_int W)"
    using kv_advance_alive[OF st3 e3 lt3] by simp_all
  have ns_a3: "\<not> is_string ?a3 key" using ns3 is_string_cong[OF a3] by simp
  have z_a3: "zset_at ?a3 key = ?zs"
    using z3 zset_at_cong[OF a3] by simp
  have fr: "fresh (now - real_of_int W) ?zs = ?zs"
    using win' by (simp add: fresh_def)
  have r1: "snd p1 = Inr [m1, m2]"
    using ns_a3 z_a3 fr sorted valid
    by (simp add: p1_def key_def[symmetric] pull_result expire_due_settled settled_advance)
  have f1: "fst p1 = pulled key 2 (now - real_of_int W) ?a3"
    by (simp add: p1_def key_def pull_store expire_due_settled settled_advance)
  have rest: "drop 2 (zsorted (fresh (now - real_of_int W) (zset_at ?a3 key))) = [(?r3, t3)]"
    using z_a3 fr sorted by simp
  have stp: "settled (fst p1)" unfolding f1 by (rule settled_pulled[OF settled_advance])
  have zp: "zset_at (fst p1) key = [(?r3, t3)]"
    unfolding f1 using ns_a3 rest by (simp add: zset_at_pulled)
  have nsp: "\<not> is_string (fst p1) key" unfolding f1 using ns_a3 by (simp add: is_string_pulled)
  have ep: "expires (fst p1) key = Some (clock s3 + real_of_int W)"
    unfolding f1 using expires_pulled[OF ns_a3, of 2 "now - real_of_int W"] rest ea3 by simp
  \<comment> \<open>wait, second pull\<close>
  let ?a4 = "redis_advance d4 (fst p1)"
  have cp: "clock (fst p1) = clock s3 + d3" unfolding f1 by simp
  have lt4: "clock (fst p1) + d4 < clock s3 + real_of_int W" using waits cp by simp
  have a4: "kv ?a4 key = kv (fst p1) key"
    using kv_advance_alive(1)[OF stp ep lt4] .
  have r2: "snd p2 = Inr [m3]"
    using nsp zp is_string_cong[OF a4] zset_at_cong[OF a4] times valid
    by (simp add: p2_def key_def[symmetric] pull_result expire_due_settled settled_advance
        fresh_def zsorted_def)
  have bound: "length msgs \<le> n"
    if "snd (redis__pull_messages_for_device loads time_time s0 client_ip dev_id n (Some now0) W)
          = Inr msgs" for s0 n now0 msgs
    using that by (auto simp: pull_result dest!: parse_messages_length split: if_splits)
  from r1 r2 bound show ?thesis by blast
qed

lemma example_payloads_distinct:
  "distinct [DeviceMessage_to_json json_dumps msg_A, DeviceMessage_to_json json_dumps msg_B,
             DeviceMessage_to_json json_dumps msg_C]"
  by code_simp

lemma cutoff_exact_small:
  "cutoff_exact 1 60" "cutoff_exact 2 60" "cutoff_exact 3 60" "cutoff_exact 5 60" "cutoff_exact 6 60"
  unfolding cutoff_exact_def binary64_exact_def
  by (simp_all add: Bex_def) (rule exI[of _ 0], simp)+

text \<open>
  The pushes are made in the order \<open>msg_C\<close> with time 3, \<open>msg_A\<close> with time 1, \<open>msg_B\<close>
  with time 2; the pull at 5 returns \<open>msg_A\<close> and \<open>msg_B\<close>, the pull at 6 returns
  \<open>msg_C\<close>. The window is 60 seconds.
\<close>

theorem C4_fifo_by_time_witness:
  "snd (redis__pull_messages_for_device json_loads 0
     (redis_advance 2 (fst (redis__push_message_for_device json_dumps 0
       (redis_advance 1 (fst (redis__push_message_for_device json_dumps 0
         (redis_advance 1 (fst (redis__push_message_for_device json_dumps 0 redis_empty
            ''ip1'' dev_A msg_C (Some 3) 60)))
         ''ip1'' dev_A msg_A (Some 1) 60)))
       ''ip1'' dev_A msg_B (Some 2) 60)))
     ''ip1'' dev_A 2 (Some 5) 60) = Inr [msg_A, msg_B]
   \<and> snd (redis__pull_messages_for_device json_loads 0
     (redis_advance 1 (fst (redis__pull_messages_for_device json_loads 0
       (redis_advance 2 (fst (redis__push_message_for_device json_dumps 0
         (redis_advance 1 (fst (redis__push_message_for_device json_dumps 0
           (redis_advance 1 (fst (redis__push_message_for_device json_dumps 0 redis_empty
              ''ip1'' dev_A msg_C (Some 3) 60)))
           ''ip1'' dev_A msg_A (Some 1) 60)))
         ''ip1'' dev_A msg_B (Some 2) 60)))
       ''ip1'' dev_A 2 (Some 5) 60)))
     ''ip1'' dev_A 2 (Some 6) 60) = Inr [msg_C]"
proof -
  have absent: "kv (expire_due redis_empty) (redis__to_device_message_queue_prefix ''ip1'' dev_A) = None"
    by (simp add: redis_empty_settled) (simp add: redis_empty_def)
  have calls: "[(msg_C, 3::real), (msg_A, 1), (msg_B, 2)]
                 \<in> set (call_orders (msg_A, 1) (msg_B, 2) (msg_C, 3))"
    by (simp add: call_orders_def)
  show ?thesis
    using C4_fifo_by_time[where s = redis_empty and W = 60 and client_ip = "''ip1''"
        and dev_id = dev_A and dumps = json_dumps and loads = json_loads and time_time = 0
        and ?t1.0 = 1 and ?t2.0 = 2 and ?t3.0 = 3 and now = 5 and now' = 6
        and ua = 3 and ub = 1 and uc = 2 and ma = msg_C and mb = msg_A and mc = msg_B
        and ?d1.0 = 1 and ?d2.0 = 1 and ?d3.0 = 2 and ?d4.0 = 1
        and ?m1.0 = msg_A and ?m2.0 = msg_B and ?m3.0 = msg_C,
        OF absent calls _ _ _ _ _ cutoff_exact_small example_payloads_distinct
          msg_A_roundtrip msg_B_roundtrip msg_C_roundtrip]
    by simp
qed

text \<open>
  The claim as stated, for any three messages, fails when two payloads coincide: the
  third push re-dates the only entry of \<open>msg_A\<close> from time 1 to time 3, and the pull of
  2 returns \<open>msg_B\<close> first.
\<close>

theorem C4_fifo_by_time_counterexample:
  "snd (redis__pull_messages_for_device json_loads 0
     (fst (redis__push_message_for_device json_dumps 0
       (fst (redis__push_message_for_device json_dumps 0
         (fst (redis__push_message_for_device json_dumps 0 redis_empty
            ''ip1'' dev_A msg_A (Some 1) 60))
         ''ip1'' dev_A msg_B (Some 2) 60))
       ''ip1'' dev_A msg_A (Some 3) 60))
     ''ip1'' dev_A 2 (Some 5) 60) = Inr [msg_B, msg_A]
   \<and> [msg_B, msg_A] \<noteq> [msg_A, msg_B]"
proof -
  have ne: "DeviceMessage_to_json json_dumps msg_A \<noteq> DeviceMessage_to_json json_dumps msg_B"
    using example_payloads_distinct by simp
  have "msg_B \<noteq> msg_A" by (simp add: msg_A_def msg_B_def)
  then show ?thesis using ne
    by (simp add: pull_result push_store redis_empty_settled pushed_def is_string_def zset_at_def
      expire_due_def alive_def redis_empty_def fresh_def without_def zsorted_def
      msg_A_roundtrip msg_B_roundtrip)
qed

subsection \<open>Presence and mailbox keys\<close>

lemma key_rest_presence:
  "ip_text ip \<Longrightarrow> key_rest (redis__presence_prefix ip) = ''presence''"
  by (simp add: key_rest_def redis__presence_prefix_def ip_text_def list_all_iff
      dropWhile_append2 ip_char_def)

lemma key_rest_info:
  "ip_text ip \<Longrightarrow> key_rest (redis__device_info_prefix ip d) = ''vice_info:'' @ d"
  by (simp add: key_rest_def redis__device_info_prefix_def ip_text_def list_all_iff
      dropWhile_append2 ip_char_def)

lemma key_rest_messages:
  "ip_text ip \<Longrightarrow> key_rest (redis__to_device_message_queue_prefix ip d) = ''messages_to:'' @ d"
  by (simp add: key_rest_def redis__to_device_message_queue_prefix_def ip_text_def list_all_iff
      dropWhile_append2 ip_char_def)

lemma keys_distinct:
  assumes "ip' = ip \<or> (ip_text ip \<and> ip_text ip')"
  shows "redis__to_device_message_queue_prefix ip d \<noteq> redis__presence_prefix ip'"
    and "redis__to_device_message_queue_prefix ip d \<noteq> redis__device_info_prefix ip' d'"
    and "redis__presence_prefix ip \<noteq> redis__device_info_prefix ip' d'"
    and "redis__presence_prefix ip \<noteq> redis__to_device_message_queue_prefix ip' d'"
    and "redis__device_info_prefix ip d \<noteq> redis__to_device_message_queue_prefix ip' d'"
proof -
  show "redis__to_device_message_queue_prefix ip d \<noteq> redis__presence_prefix ip'"
  proof
    assume eq: "redis__to_device_message_queue_prefix ip d = redis__presence_prefix ip'"
    from assms show False
    proof
      assume "ip' = ip" with eq show False
        by (simp add: redis__to_device_message_queue_prefix_def redis__presence_prefix_def)
    next
      assume "ip_text ip \<and> ip_text ip'"
      with arg_cong[OF eq, of key_rest] show False
        by (simp add: key_rest_messages key_rest_presence)
    qed
  qed
  show "redis__to_device_message_queue_prefix ip d \<noteq> redis__device_info_prefix ip' d'"
  proof
    assume eq: "redis__to_device_message_queue_prefix ip d = redis__device_info_prefix ip' d'"
    from assms show False
    proof
      assume "ip' = ip" with eq show False
        by (simp add: redis__to_device_message_queue_prefix_def redis__device_info_prefix_def)
    next
      assume "ip_text ip \<and> ip_text ip'"
      with arg_cong[OF eq, of key_rest] show False
        by (simp add: key_rest_messages key_rest_info)
    qed
  qed
  show "redis__presence_prefix ip \<noteq> redis__device_info_prefix ip' d'"
  proof
    assume eq: "redis__presence_prefix ip = redis__device_info_prefix ip' d'"
    from assms show False
    proof
      assume "ip' = ip" with eq show False
        by (simp add: redis__presence_prefix_def redis__device_info_prefix_def)
    next
      assume "ip_text ip \<and> ip_text ip'"
      with arg_cong[OF eq, of key_rest] show False
        by (simp add: key_rest_presence key_rest_info)
    qed
  qed
  show "redis__presence_prefix ip \<noteq> redis__to_device_message_queue_prefix ip' d'"
  proof
    assume eq: "redis__presence_prefix ip = redis__to_device_message_queue_prefix ip' d'"
    from assms show False
    proof
      assume "ip' = ip" with eq show False
        by (simp add: redis__presence_prefix_def redis__to_device_message_queue_prefix_def)
    next
      assume "ip_text ip \<and> ip_text ip'"
      with arg_cong[OF eq, of key_rest] show False
        by (simp add: key_rest_presence key_rest_messages)
    qed
  qed
  show "redis__device_info_prefix ip d \<noteq> redis__to_device_message_queue_prefix ip' d'"
  proof
    assume eq: "redis__device_info_prefix ip d = redis__to_device_message_queue_prefix ip' d'"
    from assms show False
    proof
      assume "ip' = ip" with eq show False
        by (simp add: redis__device_info_prefix_def redis__to_device_message_queue_prefix_def)
    next
      assume "ip_text ip \<and> ip_text ip'"
      with arg_cong[OF eq, of key_rest] show False
        by (simp add: key_rest_info key_rest_messages)
    qed
  qed
qed

lemma cur_time_default:
  "redis__push_message_for_device dumps tm s ip d m None W
     = redis__push_message_for_device dumps tm s ip d m (Some tm) W"
  "redis__pull_messages_for_device loads tm s ip d n None W
     = redis__pull_messages_for_device loads tm s ip d n (Some tm) W"
  "redis__active_devices_for_client_ip loads tm s ip None W
     = redis__active_devices_for_client_ip loads tm s ip (Some tm) W"
  "redis__update_presence_for_device dumps tm s ip d info None W
     = redis__update_presence_for_device dumps tm s ip d info (Some tm) W"
  by (simp_all add: redis__push_message_for_device_def redis__pull_messages_for_device_def
      redis__active_devices_for_client_ip_def redis__update_presence_for_device_def)

lemma redis_entry_settled: "settled s \<Longrightarrow> redis_entry s k = (kv s k, expires s k)"
  by (simp add: redis_entry_def expire_due_settled)

lemma entry_pushed: "k \<noteq> key \<Longrightarrow> settled s \<Longrightarrow>
    redis_entry (pushed key raw t W s) k = (kv s k, expires s k)"
  by (simp add: redis_entry_settled settled_pushed) (simp add: pushed_def redis_del_def)

lemma entry_pulled: "k \<noteq> key \<Longrightarrow> settled s \<Longrightarrow>
    redis_entry (pulled key n mx s) k = (kv s k, expires s k)"
  by (simp add: redis_entry_settled settled_pulled)
     (simp add: pulled_def redis_write_zset_def redis_del_def redis_write_def)

lemma entry_updated: "k \<noteq> key \<Longrightarrow> k \<noteq> ikey \<Longrightarrow> settled s \<Longrightarrow>
    redis_entry (updated key ikey d raw t W s) k = (kv s k, expires s k)"
  by (simp add: redis_entry_settled settled_updated) (simp add: updated_def redis_del_def)

lemma push_frame:
  "k \<noteq> redis__to_device_message_queue_prefix ip d \<Longrightarrow>
   redis_entry (fst (redis__push_message_for_device dumps tm s ip d m cur W)) k = redis_entry s k"
  by (cases cur) (simp_all add: cur_time_default push_store entry_pushed settled_expire_due, simp_all add: redis_entry_def)

lemma pull_frame:
  "k \<noteq> redis__to_device_message_queue_prefix ip d \<Longrightarrow>
   redis_entry (fst (redis__pull_messages_for_device loads tm s ip d n cur W)) k = redis_entry s k"
  by (cases cur) (simp_all add: cur_time_default pull_store entry_pulled settled_expire_due, simp_all add: redis_entry_def)

lemma update_frame:
  "k \<noteq> redis__presence_prefix ip \<Longrightarrow> k \<noteq> redis__device_info_prefix ip d \<Longrightarrow>
   redis_entry (fst (redis__update_presence_for_device dumps tm s ip d info cur W)) k = redis_entry s k"
  by (cases cur) (simp_all add: cur_time_default update_store entry_updated settled_expire_due, simp_all add: redis_entry_def)

text \<open>
  Claim C9 (amended). When the two client addresses are the same, or both are texts of
  IP addresses, the three key families are pairwise distinct whatever the device ids,
  and so: a push or a pull for \<open>(client_ip, dev_id)\<close> leaves the presence set of
  \<open>client_ip'\<close> and the info key of every \<open>(client_ip', dev_id')\<close> as they were, and a
  presence update for \<open>(client_ip, dev_id)\<close> leaves the mailbox of every
  \<open>(client_ip', dev_id')\<close> as it was (value and expiry, as the next command finds them).
\<close>

theorem C9_presence_and_mailbox_disjoint:
  assumes "client_ip' = client_ip \<or> (ip_text client_ip \<and> ip_text client_ip')"
  shows "redis_entry (fst (redis__push_message_for_device dumps time_time s client_ip dev_id
                              message cur_time expiration_secs)) (redis__presence_prefix client_ip')
           = redis_entry s (redis__presence_prefix client_ip')
       \<and> redis_entry (fst (redis__push_message_for_device dumps time_time s client_ip dev_id
                              message cur_time expiration_secs))
             (redis__device_info_prefix client_ip' dev_id')
           = redis_entry s (redis__device_info_prefix client_ip' dev_id')
       \<and> redis_entry (fst (redis__pull_messages_for_device loads time_time s client_ip dev_id
                              message_count cur_time expiration_secs))
             (redis__presence_prefix client_ip')
           = redis_entry s (redis__presence_prefix client_ip')
       \<and> redis_entry (fst (redis__pull_messages_for_device loads time_time s client_ip dev_id
                              message_count cur_time expiration_secs))
             (redis__device_info_prefix client_ip' dev_id')
           = redis_entry s (redis__device_info_prefix client_ip' dev_id')
       \<and> redis_entry (fst (redis__update_presence_for_device dumps time_time s client_ip dev_id
                              device_info cur_time expiration_secs))
             (redis__to_device_message_queue_prefix client_ip' dev_id')
           = redis_entry s (redis__to_device_message_queue_prefix client_ip' dev_id')
       \<and> redis__presence_prefix client_ip \<noteq> redis__device_info_prefix client_ip' dev_id'
       \<and> redis__presence_prefix client_ip \<noteq> redis__to_device_message_queue_prefix client_ip' dev_id'
       \<and> redis__device_info_prefix client_ip dev_id
            \<noteq> redis__to_device_message_queue_prefix client_ip' dev_id'"
proof -
  note kd = keys_distinct[OF assms]
  show ?thesis
    by (intro conjI push_frame pull_frame update_frame kd kd(1,2,4,5)[symmetric])
qed

text \<open>An IPv6 and an IPv4 address: the push for one leaves the presence set of the other.\<close>

theorem C9_presence_and_mailbox_disjoint_witness:
  "(''fe80::1'' = ''192.168.1.7'' \<or> (ip_text ''192.168.1.7'' \<and> ip_text ''fe80::1''))
   \<and> redis_entry (fst (redis__push_message_for_device json_dumps 0
          (fst (redis__update_presence_for_device json_dumps 0 redis_empty ''fe80::1'' dev_A
                  info_A (Some 0) 10))
          ''192.168.1.7'' dev_A msg_A (Some 1) 60)) (redis__presence_prefix ''fe80::1'')
       = redis_entry (fst (redis__update_presence_for_device json_dumps 0 redis_empty ''fe80::1''
                             dev_A info_A (Some 0) 10)) (redis__presence_prefix ''fe80::1'')
   \<and> redis__presence_prefix ''192.168.1.7''
         \<noteq> redis__to_device_message_queue_prefix ''fe80::1'' dev_A"
proof -
  have h: "''fe80::1'' = ''192.168.1.7'' \<or> (ip_text ''192.168.1.7'' \<and> ip_text ''fe80::1'')"
    by (simp add: ip_text_def ip_char_def)
  show ?thesis
    using h C9_presence_and_mailbox_disjoint[OF h, of json_dumps 0
        "fst (redis__update_presence_for_device json_dumps 0 redis_empty ''fe80::1'' dev_A
                info_A (Some 0) 10)" dev_A msg_A "Some 1" 60 dev_A json_loads 3 info_A]
    by simp
qed

text \<open>
  The claim as stated, for all arguments, fails: the key names are plain concatenations,
  and the mailbox key of the 32-character device id \<^verbatim>\<open>AAAAAAAAAAAAAAAAAAAAAAA:presence\<close>
  under address \<^verbatim>\<open>a\<close> is the presence key of the address
  \<^verbatim>\<open>a:messages_to:AAAAAAAAAAAAAAAAAAAAAAA\<close>. A push to that mailbox puts the message into
  that presence set.
\<close>

theorem C9_presence_and_mailbox_disjoint_counterexample:
  "redis__to_device_message_queue_prefix ''a'' ''AAAAAAAAAAAAAAAAAAAAAAA:presence''
     = redis__presence_prefix ''a:messages_to:AAAAAAAAAAAAAAAAAAAAAAA''
   \<and> length ''AAAAAAAAAAAAAAAAAAAAAAA:presence'' = 32
   \<and> zset_of redis_empty (redis__presence_prefix ''a:messages_to:AAAAAAAAAAAAAAAAAAAAAAA'') = []
   \<and> zset_of (fst (redis__push_message_for_device json_dumps 0 redis_empty ''a''
                     ''AAAAAAAAAAAAAAAAAAAAAAA:presence'' msg_A (Some 0) 60))
        (redis__presence_prefix ''a:messages_to:AAAAAAAAAAAAAAAAAAAAAAA'')
       = [(DeviceMessage_to_json json_dumps msg_A, 0)]"
  by (simp add: zset_of_eq push_store redis_empty_settled pushed_def is_string_def zset_at_def
      fresh_def without_def)
     (simp add: redis_empty_def redis__to_device_message_queue_prefix_def redis__presence_prefix_def
      expire_due_def alive_def)

subsection \<open>Mailbox: one entry per payload\<close>

lemma zsets_distinct_at: "zsets_distinct s \<Longrightarrow> distinct (map fst (zset_at s k))"
  by (auto simp: zsets_distinct_def zset_at_def split: option.splits rvalue.splits)

lemma distinct_fresh: "distinct (map fst zs) \<Longrightarrow> distinct (map fst (fresh mx zs))"
  by (simp add: fresh_def distinct_map_filter)

lemma distinct_without: "distinct (map fst zs) \<Longrightarrow> distinct (map fst (without m zs))"
  by (simp add: without_def distinct_map_filter)

lemma distinct_zsorted: "distinct (map fst zs) \<Longrightarrow> distinct (map fst (zsorted zs))"
  by (simp add: zsorted_def distinct_map)

lemma not_in_without: "m \<notin> fst ` set (without m zs)"
  by (auto simp: without_def)

lemma distinct_zadd:
  "distinct (map fst zs) \<Longrightarrow> distinct (map fst (without m zs @ [(m, sc)]))"
  using not_in_without[of m zs] by (simp add: distinct_without)

lemma zsets_distinct_empty: "zsets_distinct redis_empty"
  by (simp add: zsets_distinct_def redis_empty_def)

lemma zsets_distinct_expire_due: "zsets_distinct s \<Longrightarrow> zsets_distinct (expire_due s)"
  by (auto simp: zsets_distinct_def expire_due_def split: if_splits)

lemma zsets_distinct_advance: "zsets_distinct s \<Longrightarrow> zsets_distinct (redis_advance dt s)"
  by (auto simp: zsets_distinct_def redis_advance_def expire_due_def split: if_splits)

lemma zsets_distinct_write_zset:
  "zsets_distinct s \<Longrightarrow> distinct (map fst zs) \<Longrightarrow> zsets_distinct (redis_write_zset k zs s)"
  by (auto simp: zsets_distinct_def redis_write_zset_def redis_write_def redis_del_def
      split: if_splits)

lemma zsets_distinct_pushed: "zsets_distinct s \<Longrightarrow> zsets_distinct (pushed key raw t W s)"
  using distinct_zadd[OF distinct_fresh[OF zsets_distinct_at[of s key]], of raw "t - real_of_int W" t]
  by (auto simp: zsets_distinct_def pushed_def redis_del_def split: if_splits)

lemma zsets_distinct_pulled: "zsets_distinct s \<Longrightarrow> zsets_distinct (pulled key n mx s)"
proof -
  assume a: "zsets_distinct s"
  have "distinct (map fst (drop n (zsorted (fresh mx (zset_at s key)))))"
    using distinct_zsorted[OF distinct_fresh[OF zsets_distinct_at[OF a, of key], of mx]]
    by (simp add: drop_map[symmetric])
  with a show ?thesis by (simp add: pulled_def zsets_distinct_write_zset)
qed

lemma zsets_distinct_pruned: "zsets_distinct s \<Longrightarrow> zsets_distinct (pruned key mx s)"
  by (simp add: pruned_def zsets_distinct_write_zset distinct_fresh zsets_distinct_at)

lemma zsets_distinct_updated:
  "zsets_distinct s \<Longrightarrow> zsets_distinct (updated key ikey d raw t W s)"
  using distinct_zadd[OF zsets_distinct_at[of s key], of d t]
  by (auto simp: zsets_distinct_def updated_def redis_del_def split: if_splits)

lemma reachable_zsets_distinct: "reachable dumps loads s \<Longrightarrow> zsets_distinct s"
proof (induction rule: reachable.induct)
  case reachable_empty
  show ?case by (rule zsets_distinct_empty)
next
  case (reachable_advance s dt)
  then show ?case by (simp add: zsets_distinct_advance)
next
  case (reachable_push s time_time client_ip dev_id message cur_time expiration_secs)
  then show ?case
    by (cases cur_time)
       (simp_all add: cur_time_default push_store zsets_distinct_pushed zsets_distinct_expire_due)
next
  case (reachable_pull s time_time client_ip dev_id message_count cur_time expiration_secs)
  then show ?case
    by (cases cur_time)
       (simp_all add: cur_time_default pull_store zsets_distinct_pulled zsets_distinct_expire_due)
next
  case (reachable_list s time_time client_ip cur_time expiration_secs)
  then show ?case
    by (cases cur_time)
       (simp_all add: cur_time_default list_store zsets_distinct_pruned zsets_distinct_expire_due)
next
  case (reachable_update s time_time client_ip dev_id device_info cur_time expiration_secs)
  then show ?case
    by (cases cur_time)
       (simp_all add: cur_time_default update_store zsets_distinct_updated zsets_distinct_expire_due)
qed

lemma length_without_mem: "(m, sc) \<in> set zs \<Longrightarrow> length (without m zs) < length zs"
  by (induction zs) (auto simp: without_def less_Suc_eq_le)

lemma length_fresh_le: "length (fresh mx zs) \<le> length zs"
  by (simp add: fresh_def)

lemma length_without_le: "length (without m zs) \<le> length zs"
  by (simp add: without_def)

text \<open>
  Claim C10. In every reachable store a mailbox holds each serialized payload at most
  once. When the payload of the pushed message is already a member, with whatever score
  \<open>sc\<close>, the push leaves one entry for it, scored with the time of this push, and the
  queue does not grow.
\<close>

theorem C10_one_entry_per_payload:
  fixes dumps :: "json \<Rightarrow> string" and message :: DeviceMessage and client_ip dev_id :: string
    and s :: redis and time_time now :: real and expiration_secs :: int
  defines "key \<equiv> redis__to_device_message_queue_prefix client_ip dev_id"
  defines "raw \<equiv> DeviceMessage_to_json dumps message"
  defines "s' \<equiv> fst (redis__push_message_for_device dumps time_time s client_ip dev_id message
                        (Some now) expiration_secs)"
  assumes "reachable dumps loads s" and "0 < expiration_secs" and "(raw, sc) \<in> set (zset_of s key)"
  shows "distinct (map fst (zset_of s key))
       \<and> distinct (map fst (zset_of s' key))
       \<and> zscore s' key raw = Some now
       \<and> length (zset_of s' key) \<le> length (zset_of s key)"
proof -
  let ?s0 = "expire_due s"
  let ?mx = "now - real_of_int expiration_secs"
  have inv: "zsets_distinct ?s0"
    using assms(4) by (simp add: reachable_zsets_distinct zsets_distinct_expire_due)
  have mem: "(raw, sc) \<in> set (zset_at ?s0 key)" using assms(6) by (simp add: zset_of_eq)
  then have ns: "\<not> is_string ?s0 key"
    by (auto simp: zset_at_def is_string_def split: option.splits rvalue.splits)
  have s': "s' = pushed key raw now expiration_secs ?s0"
    by (simp add: s'_def key_def raw_def push_store)
  have "settled s'" unfolding s' by (rule settled_pushed[OF settled_expire_due])
  then have z': "zset_of s' key = without raw (fresh ?mx (zset_at ?s0 key)) @ [(raw, now)]"
    unfolding zset_of_eq by (simp add: expire_due_settled) (simp add: s' zset_at_pushed assms(5) ns)
  have d0: "distinct (map fst (zset_of s key))"
    using inv by (simp add: zset_of_eq zsets_distinct_at)
  have d1: "distinct (map fst (zset_of s' key))"
    unfolding z' by (intro distinct_zadd distinct_fresh zsets_distinct_at inv)
  have sc: "zscore s' key raw = Some now"
    by (simp add: zscore_def z' without_def map_of_zadd del: map_of_append)
  have len: "length (zset_of s' key) \<le> length (zset_of s key)"
  proof (cases "?mx < sc")
    case True
    then have "(raw, sc) \<in> set (fresh ?mx (zset_at ?s0 key))" using mem by (simp add: set_fresh)
    from length_without_mem[OF this] length_fresh_le[of ?mx "zset_at ?s0 key"]
    show ?thesis by (simp add: z'[unfolded zset_of_eq] zset_of_eq)
  next
    case False
    then have "(raw, sc) \<notin> set (fresh ?mx (zset_at ?s0 key))" by (simp add: set_fresh)
    with mem have "set (fresh ?mx (zset_at ?s0 key)) \<noteq> set (zset_at ?s0 key)" by auto
    then have "length (fresh ?mx (zset_at ?s0 key)) < length (zset_at ?s0 key)"
      unfolding fresh_def
      by (metis (no_types, lifting) filter_id_conv length_filter_less order_less_le length_filter_le filter_True)
    with length_without_le[of raw "fresh ?mx (zset_at ?s0 key)"]
    show ?thesis by (simp add: z'[unfolded zset_of_eq] zset_of_eq)
  qed
  from d0 d1 sc len show ?thesis by blast
qed

text \<open>The same message pushed at time 1 and again at time 3: one entry, dated 3.\<close>

lemma zset_after_push_A:
  "zset_of (fst (redis__push_message_for_device json_dumps 0 redis_empty ''ip1'' dev_A msg_A
                   (Some 1) 60)) (redis__to_device_message_queue_prefix ''ip1'' dev_A)
     = [(DeviceMessage_to_json json_dumps msg_A, 1)]"
  by (simp add: zset_of_eq push_store redis_empty_settled pushed_def is_string_def zset_at_def
      fresh_def without_def)
     (simp add: redis_empty_def expire_due_def alive_def)

theorem C10_one_entry_per_payload_witness:
  "reachable json_dumps json_loads
     (fst (redis__push_message_for_device json_dumps 0 redis_empty ''ip1'' dev_A msg_A (Some 1) 60))
   \<and> (0::int) < 60
   \<and> (DeviceMessage_to_json json_dumps msg_A, 1)
        \<in> set (zset_of (fst (redis__push_message_for_device json_dumps 0 redis_empty ''ip1''
                               dev_A msg_A (Some 1) 60))
                  (redis__to_device_message_queue_prefix ''ip1'' dev_A))
   \<and> zscore (fst (redis__push_message_for_device json_dumps 0
                 (fst (redis__push_message_for_device json_dumps 0 redis_empty ''ip1'' dev_A
                         msg_A (Some 1) 60))
                 ''ip1'' dev_A msg_A (Some 3) 60))
        (redis__to_device_message_queue_prefix ''ip1'' dev_A)
        (DeviceMessage_to_json json_dumps msg_A) = Some 3
   \<and> length (zset_of (fst (redis__push_message_for_device json_dumps 0
                 (fst (redis__push_message_for_device json_dumps 0 redis_empty ''ip1'' dev_A
                         msg_A (Some 1) 60))
                 ''ip1'' dev_A msg_A (Some 3) 60))
        (redis__to_device_message_queue_prefix ''ip1'' dev_A)) \<le> 1"
proof -
  have r: "reachable json_dumps json_loads
     (fst (redis__push_message_for_device json_dumps 0 redis_empty ''ip1'' dev_A msg_A (Some 1) 60))"
    by (intro reachable_push reachable_empty)
  have m: "(DeviceMessage_to_json json_dumps msg_A, 1)
        \<in> set (zset_of (fst (redis__push_message_for_device json_dumps 0 redis_empty ''ip1''
                               dev_A msg_A (Some 1) 60))
                  (redis__to_device_message_queue_prefix ''ip1'' dev_A))"
    by (simp add: zset_after_push_A)
  show ?thesis
    using r m C10_one_entry_per_payload[OF r _ m, of 60 0 3] zset_after_push_A
    by simp
qed

subsection \<open>Fetching the snapshots\<close>

lemma zsorted_without: "zsorted (without m zs) = without m (zsorted zs)"
  by (simp add: zsorted_def without_def filter_sort)

lemma map_fst_without: "map fst (without m zs) = filter (\<lambda>x. x \<noteq> m) (map fst zs)"
  by (induction zs) (auto simp: without_def)

lemma get_skip_first_error:
  "kv s (redis__device_info_prefix ip d) = None \<Longrightarrow>
   first_error (map err_of (get_device_infos ip (filter (\<lambda>x. x \<noteq> d) ids) s))
     = first_error (map err_of (get_device_infos ip ids s))"
  by (induction ids) (auto simp: redis_get_def err_of_def split: option.splits rvalue.splits)

lemma get_skip_parse:
  "kv s (redis__device_info_prefix ip d) = None \<Longrightarrow>
   parse_infos loads (replies_of (get_device_infos ip (filter (\<lambda>x. x \<noteq> d) ids) s))
     = parse_infos loads (replies_of (get_device_infos ip ids s))"
  by (induction ids) (auto simp: redis_get_def split: option.splits rvalue.splits sum.splits)

lemma fetch_infos_skip:
  "kv s (redis__device_info_prefix ip d) = None \<Longrightarrow>
   fetch_infos loads ip (filter (\<lambda>x. x \<noteq> d) ids) s = fetch_infos loads ip ids s"
  by (simp add: fetch_infos_def get_skip_first_error get_skip_parse split: option.splits)

lemma fetch_infos_cong:
  "(\<And>d. d \<in> set ids \<Longrightarrow> kv s (redis__device_info_prefix ip d) = kv s' (redis__device_info_prefix ip d))
   \<Longrightarrow> fetch_infos loads ip ids s = fetch_infos loads ip ids s'"
  using get_device_infos_cong[of ids s ip s'] by (simp add: fetch_infos_def split: option.splits)

lemma expire_due_zrem: "expire_due (zrem key m s) = zrem key m (expire_due s)"
  by (auto simp: zrem_def expire_due_def alive_def redis_write_zset_def redis_del_def
      redis_write_def fun_eq_iff split: option.splits rvalue.splits intro!: redis.equality)

lemma is_string_zrem: "is_string (zrem key m s) key = is_string s key"
  by (auto simp: zrem_def is_string_def redis_write_zset_def redis_del_def redis_write_def
      split: option.splits rvalue.splits)

lemma zset_at_zrem: "zset_at (zrem key m s) key = without m (zset_at s key)"
  by (auto simp: zrem_def zset_at_def redis_write_zset_def redis_del_def redis_write_def without_def
      split: option.splits rvalue.splits)

lemma kv_zrem_other: "k \<noteq> key \<Longrightarrow> kv (zrem key m s) k = kv s k"
  by (auto simp: zrem_def redis_write_zset_def redis_del_def redis_write_def
      split: option.splits rvalue.splits)

lemma list_without_absent:
  assumes "kv (expire_due s) (redis__device_info_prefix ip d) = None"
  shows "snd (redis__active_devices_for_client_ip loads tm (zrem (redis__presence_prefix ip) d s)
                ip (Some t) W)
         = snd (redis__active_devices_for_client_ip loads tm s ip (Some t) W)"
proof -
  let ?key = "redis__presence_prefix ip"
  let ?s0 = "expire_due s"
  let ?ids = "map fst (zsorted (fresh (t - real_of_int W) (zset_at ?s0 ?key)))"
  have ids: "map fst (zsorted (fresh (t - real_of_int W) (without d (zset_at ?s0 ?key))))
               = filter (\<lambda>x. x \<noteq> d) ?ids"
    by (simp add: fresh_without zsorted_without map_fst_without)
  have "fetch_infos loads ip (filter (\<lambda>x. x \<noteq> d) ?ids) (zrem ?key d ?s0)
          = fetch_infos loads ip (filter (\<lambda>x. x \<noteq> d) ?ids) ?s0"
    by (rule fetch_infos_cong) (simp add: kv_zrem_other presence_key_neq_info_key[symmetric])
  also have "\<dots> = fetch_infos loads ip ?ids ?s0"
    by (rule fetch_infos_skip[OF assms])
  finally show ?thesis
    by (simp add: list_result expire_due_zrem is_string_zrem zset_at_zrem ids)
qed

lemma get_ok:
  "\<forall>d \<in> set ids. snapshot_ok loads s ip d \<Longrightarrow>
   first_error (map err_of (get_device_infos ip ids (expire_due s))) = None"
  by (induction ids)
     (auto simp: snapshot_ok_def redis_get_def err_of_def split: option.splits rvalue.splits)

lemma parse_ok:
  "\<forall>d \<in> set ids. snapshot_ok loads s ip d \<Longrightarrow>
   \<exists>ds. parse_infos loads (replies_of (get_device_infos ip ids (expire_due s))) = Inr ds
      \<and> map DeviceInfo.device_id ds = filter (has_snapshot s ip) ids
      \<and> (\<forall>di \<in> set ds. \<exists>raw.
            kv (expire_due s) (redis__device_info_prefix ip (DeviceInfo.device_id di))
              = Some (RString raw)
            \<and> DeviceInfo_from_json loads raw = Inr di)"
proof (induction ids)
  case Nil
  then show ?case by simp
next
  case (Cons a ids)
  then obtain ds where ds:
    "parse_infos loads (replies_of (get_device_infos ip ids (expire_due s))) = Inr ds"
    "map DeviceInfo.device_id ds = filter (has_snapshot s ip) ids"
    "\<forall>di \<in> set ds. \<exists>raw.
            kv (expire_due s) (redis__device_info_prefix ip (DeviceInfo.device_id di))
              = Some (RString raw)
            \<and> DeviceInfo_from_json loads raw = Inr di"
    by auto
  from Cons.prems have ok: "snapshot_ok loads s ip a" by simp
  show ?case
  proof (cases "kv (expire_due s) (redis__device_info_prefix ip a)")
    case None
    then have "\<not> has_snapshot s ip a" by (simp add: has_snapshot_def)
    with None show ?thesis using ds by (simp add: redis_get_def)
  next
    case (Some v)
    show ?thesis
    proof (cases v)
      case (RZSet zs)
      then show ?thesis using ok Some by (simp add: snapshot_ok_def)
    next
      case (RString raw)
      show ?thesis
      proof (cases "raw = []")
        case True
        then have "\<not> has_snapshot s ip a" using Some RString by (simp add: has_snapshot_def)
        with True show ?thesis using ds Some RString by (simp add: redis_get_def)
      next
        case False
        with ok Some RString obtain di where
          di: "DeviceInfo_from_json loads raw = Inr di" "DeviceInfo.device_id di = a"
          by (auto simp: snapshot_ok_def split: sum.splits)
        have "parse_infos loads (replies_of (get_device_infos ip (a # ids) (expire_due s)))
                = Inr (di # ds)"
          using False Some RString di ds(1) by (simp add: redis_get_def)
        moreover have "has_snapshot s ip a"
          using False Some RString by (simp add: has_snapshot_def)
        then have "map DeviceInfo.device_id (di # ds) = filter (has_snapshot s ip) (a # ids)"
          using di ds(2) by simp
        moreover have "\<forall>di' \<in> set (di # ds). \<exists>raw.
            kv (expire_due s) (redis__device_info_prefix ip (DeviceInfo.device_id di'))
              = Some (RString raw)
            \<and> DeviceInfo_from_json loads raw = Inr di'"
          using Some RString di ds(3) by auto
        ultimately show ?thesis by blast
      qed
    qed
  qed
qed

lemma list_ok:
  assumes "presence_ok loads s ip"
  shows "\<exists>ds. snd (redis__active_devices_for_client_ip loads tm s ip (Some now) W) = Inr ds
      \<and> map DeviceInfo.device_id ds = filter (has_snapshot s ip) (active_ids s ip now W)
      \<and> (\<forall>di \<in> set ds. \<exists>raw.
            kv (expire_due s) (redis__device_info_prefix ip (DeviceInfo.device_id di))
              = Some (RString raw)
            \<and> DeviceInfo_from_json loads raw = Inr di)"
proof -
  let ?ids = "active_ids s ip now W"
  have "\<forall>d \<in> set ?ids. snapshot_ok loads s ip d"
    using assms
    by (auto simp: presence_ok_def active_ids_def list_all_iff set_zsorted set_fresh)
  from get_ok[OF this] parse_ok[OF this] assms show ?thesis
    by (simp add: list_result presence_ok_def fetch_infos_def active_ids_def zset_of_eq)
qed

subsection \<open>Presence: a listed id without its snapshot\<close>

text \<open>
  Claim C7. When the info key of a device is absent, the device id, listed or not
  in the presence set, changes nothing in what
  \<^verbatim>\<open>redis__active_devices_for_client_ip\<close> returns: the call returns, or raises, exactly
  as it does on the store where the id is not listed at all. When the presence state
  is well formed the call returns, and the devices of the result are exactly the active
  ids that have a snapshot, in order; the device without snapshot is not among them.
\<close>

theorem C7_absent_snapshot_skipped:
  assumes "kv (expire_due s) (redis__device_info_prefix client_ip dev_id) = None"
  shows "snd (redis__active_devices_for_client_ip loads time_time s client_ip (Some now)
                expiration_secs)
         = snd (redis__active_devices_for_client_ip loads time_time
                  (zrem (redis__presence_prefix client_ip) dev_id s) client_ip (Some now)
                  expiration_secs)
       \<and> (presence_ok loads s client_ip \<longrightarrow>
            (\<exists>dinfos. snd (redis__active_devices_for_client_ip loads time_time s client_ip
                              (Some now) expiration_secs) = Inr dinfos
               \<and> map DeviceInfo.device_id dinfos
                   = filter (has_snapshot s client_ip)
                       (active_ids s client_ip now expiration_secs)
               \<and> dev_id \<notin> DeviceInfo.device_id ` set dinfos))"
proof -
  have "\<not> has_snapshot s client_ip dev_id" using assms by (simp add: has_snapshot_def)
  then have "dev_id \<notin> set (filter (has_snapshot s client_ip) ids)" for ids by simp
  then have "dev_id \<notin> DeviceInfo.device_id ` set dinfos"
    if "map DeviceInfo.device_id dinfos = filter (has_snapshot s client_ip) ids" for dinfos ids
    using that by (metis set_map)
  with list_ok[of loads s client_ip time_time now expiration_secs]
    list_without_absent[OF assms, of loads time_time now expiration_secs]
  show ?thesis by (metis (no_types, lifting))
qed

lemma info_A_roundtrip:
  "DeviceInfo_from_json json_loads (DeviceInfo_to_json json_dumps info_A) = Inr info_A"
  by code_simp

lemma info_B_roundtrip:
  "DeviceInfo_from_json json_loads (DeviceInfo_to_json json_dumps info_B) = Inr info_B"
  by code_simp

lemma info_json_nonempty:
  "DeviceInfo_to_json json_dumps info_A \<noteq> []" "DeviceInfo_to_json json_dumps info_B \<noteq> []"
  by code_simp+

lemma dev_A_neq_dev_B: "dev_A \<noteq> dev_B"
  by code_simp

lemma info_key_inj:
  "redis__device_info_prefix ip d = redis__device_info_prefix ip d' \<longleftrightarrow> d = d'"
  by (simp add: redis__device_info_prefix_def)

lemma expired_snapshot_kv:
  "kv presence_with_expired_snapshot =
     (\<lambda>k. if k = redis__presence_prefix ''ip1'' then Some (RZSet [(dev_A, 0), (dev_B, 5)])
          else if k = redis__device_info_prefix ''ip1'' dev_B
            then Some (RString (DeviceInfo_to_json json_dumps info_B))
          else None)"
  using dev_A_neq_dev_B presence_key_neq_info_key[of "''ip1''"]
  by (auto simp: presence_with_expired_snapshot_def update_store updated_def redis_empty_settled
      redis_advance_def expire_due_def alive_def is_string_def zset_at_def without_def fun_eq_iff
      info_key_inj redis_empty_def)

lemma expired_snapshot_settled: "expire_due presence_with_expired_snapshot = presence_with_expired_snapshot"
  by (simp add: presence_with_expired_snapshot_def expire_due_settled settled_advance)

lemma list_expired_snapshot:
  "snd (redis__active_devices_for_client_ip json_loads 0 presence_with_expired_snapshot ''ip1''
          (Some 9) 10) = Inr [info_B]"
  using dev_A_neq_dev_B presence_key_neq_info_key[of "''ip1''"]
    presence_key_neq_info_key[of "''ip1''", symmetric]
  by (simp add: list_result expired_snapshot_settled expired_snapshot_kv is_string_def zset_at_def
      fresh_def zsorted_def fetch_infos_def redis_get_def err_of_def info_key_inj
      info_B_roundtrip info_json_nonempty)

text \<open>
  \<open>dev_A\<close> has the score 0, within the window of 10 seconds at time 9, and no snapshot:
  the result is the snapshot of \<open>dev_B\<close> alone.
\<close>

theorem C7_absent_snapshot_skipped_witness:
  "kv (expire_due presence_with_expired_snapshot) (redis__device_info_prefix ''ip1'' dev_A) = None
   \<and> zscore presence_with_expired_snapshot (redis__presence_prefix ''ip1'') dev_A = Some 0
   \<and> snd (redis__active_devices_for_client_ip json_loads 0 presence_with_expired_snapshot ''ip1''
            (Some 9) 10)
       = snd (redis__active_devices_for_client_ip json_loads 0
                (zrem (redis__presence_prefix ''ip1'') dev_A presence_with_expired_snapshot)
                ''ip1'' (Some 9) 10)
   \<and> snd (redis__active_devices_for_client_ip json_loads 0 presence_with_expired_snapshot ''ip1''
            (Some 9) 10) = Inr [info_B]"
proof -
  have h: "kv (expire_due presence_with_expired_snapshot)
             (redis__device_info_prefix ''ip1'' dev_A) = None"
    using dev_A_neq_dev_B presence_key_neq_info_key[of "''ip1''" dev_A]
    by (simp add: expired_snapshot_settled expired_snapshot_kv info_key_inj)
  have sc: "zscore presence_with_expired_snapshot (redis__presence_prefix ''ip1'') dev_A = Some 0"
    by (simp add: zscore_def zset_of_eq zset_at_def expired_snapshot_settled expired_snapshot_kv)
  show ?thesis
    using h sc list_expired_snapshot
      C7_absent_snapshot_skipped[OF h, of json_loads 0 9 10]
    by simp
qed

subsection \<open>Stores after a presence update\<close>

lemma zset_at_updated:
  "0 < W \<Longrightarrow> \<not> is_string s key \<Longrightarrow> key \<noteq> ikey \<Longrightarrow>
   zset_at (updated key ikey d raw t W s) key = without d (zset_at s key) @ [(d, t)]"
  by (simp add: updated_def zset_at_def)

lemma is_string_updated:
  "0 < W \<Longrightarrow> key \<noteq> ikey \<Longrightarrow> is_string (updated key ikey d raw t W s) key = is_string s key"
  by (simp add: updated_def is_string_def)

lemma kv_updated_info:
  "0 < W \<Longrightarrow> kv (updated key ikey d raw t W s) ikey = Some (RString raw)"
  by (simp add: updated_def)

lemma kv_updated_other:
  "k \<noteq> key \<Longrightarrow> k \<noteq> ikey \<Longrightarrow> kv (updated key ikey d raw t W s) k = kv s k"
  by (simp add: updated_def redis_del_def)

lemma expires_updated:
  "0 < W \<Longrightarrow> expires (updated key ikey d raw t W s) key = Some (clock s + real_of_int W)"
  "0 < W \<Longrightarrow> expires (updated key ikey d raw t W s) ikey = Some (clock s + real_of_int W)"
  by (simp_all add: updated_def)

lemma clock_updated [simp]: "clock (updated key ikey d raw t W s) = clock s"
  by (simp add: updated_def redis_del_def)

lemma kv_advance_cases:
  "0 \<le> dt \<Longrightarrow> kv (redis_advance dt s) k = None \<or> kv (redis_advance dt s) k = kv (expire_due s) k"
  by (auto simp: redis_advance_def expire_due_def alive_def split: option.splits)

lemma expire_due_advance: "expire_due (redis_advance dt s) = redis_advance dt s"
  by (simp add: expire_due_settled settled_advance)

lemma presence_ok_advance:
  assumes "presence_ok loads s ip" and "0 \<le> dt"
  shows "presence_ok loads (redis_advance dt s) ip"
proof -
  let ?a = "redis_advance dt s" and ?key = "redis__presence_prefix ip"
  have ns: "\<not> is_string (expire_due ?a) ?key"
    using assms kv_advance_cases[OF assms(2), of s ?key]
    by (auto simp: expire_due_advance presence_ok_def is_string_def)
  have sub: "set (zset_of ?a ?key) \<subseteq> set (zset_of s ?key)"
    using kv_advance_cases[OF assms(2), of s ?key]
    by (auto simp: zset_of_eq expire_due_advance zset_at_def)
  have snap: "snapshot_ok loads ?a ip d" if "snapshot_ok loads s ip d" for d
  proof -
    from kv_advance_cases[OF assms(2), of s "redis__device_info_prefix ip d"]
    show ?thesis
    proof
      assume "kv ?a (redis__device_info_prefix ip d) = None"
      then show ?thesis by (simp add: snapshot_ok_def expire_due_advance)
    next
      assume "kv ?a (redis__device_info_prefix ip d) = kv (expire_due s) (redis__device_info_prefix ip d)"
      then show ?thesis using that by (simp add: snapshot_ok_def expire_due_advance)
    qed
  qed
  have "snapshot_ok loads ?a ip d" if "(d, sc) \<in> set (zset_of ?a ?key)" for d sc
  proof -
    from that sub have "(d, sc) \<in> set (zset_of s ?key)" by blast
    with assms(1) have "snapshot_ok loads s ip d" by (auto simp: presence_ok_def list_all_iff)
    then show ?thesis by (rule snap)
  qed
  with ns show ?thesis by (auto simp: presence_ok_def list_all_iff)
qed

lemma presence_ok_update:
  assumes ok: "presence_ok loads s ip" and W: "0 < W"
    and valid: "DeviceInfo_from_json loads (DeviceInfo_to_json dumps info) = Inr info"
               "DeviceInfo.device_id info = d"
  shows "presence_ok loads (fst (redis__update_presence_for_device dumps tm s ip d info (Some t) W)) ip"
proof -
  let ?key = "redis__presence_prefix ip" and ?ikey = "redis__device_info_prefix ip d"
  let ?raw = "DeviceInfo_to_json dumps info" and ?s0 = "expire_due s"
  let ?s1 = "updated ?key ?ikey d ?raw t W ?s0"
  have ne: "?key \<noteq> ?ikey" by (rule presence_key_neq_info_key)
  have s1: "fst (redis__update_presence_for_device dumps tm s ip d info (Some t) W) = ?s1"
    by (rule update_store)
  have e1: "expire_due ?s1 = ?s1"
    by (intro expire_due_settled settled_updated settled_expire_due)
  have ns0: "\<not> is_string ?s0 ?key" using ok by (simp add: presence_ok_def)
  have ns: "\<not> is_string ?s1 ?key" using ns0 W ne by (simp add: is_string_updated)
  have z: "zset_at ?s1 ?key = without d (zset_at ?s0 ?key) @ [(d, t)]"
    using ns0 W ne by (simp add: zset_at_updated)
  have snap_d: "snapshot_ok loads ?s1 ip d"
    using valid W by (simp add: snapshot_ok_def e1 kv_updated_info)
  have snap_other: "snapshot_ok loads ?s1 ip d'"
    if "d' \<noteq> d" "snapshot_ok loads s ip d'" for d'
  proof -
    have "kv ?s1 (redis__device_info_prefix ip d') = kv ?s0 (redis__device_info_prefix ip d')"
      using that(1) by (intro kv_updated_other) (simp_all add: presence_key_neq_info_key[symmetric] info_key_inj)
    then show ?thesis using that(2) by (simp add: snapshot_ok_def e1)
  qed
  have "snapshot_ok loads ?s1 ip d'" if "(d', sc) \<in> set (zset_at ?s1 ?key)" for d' sc
  proof (cases "d' = d")
    case True
    then show ?thesis using snap_d by simp
  next
    case False
    with that have "(d', sc) \<in> set (zset_at ?s0 ?key)" by (auto simp: z without_def)
    then have "snapshot_ok loads s ip d'"
      using ok by (auto simp: presence_ok_def list_all_iff zset_of_eq)
    with False show ?thesis by (rule snap_other)
  qed
  then show ?thesis
    using ns by (auto simp: presence_ok_def s1 e1 zset_of_eq list_all_iff)
qed

lemma presence_ok_empty: "presence_ok loads redis_empty ip"
  by (simp add: presence_ok_def redis_empty_settled is_string_def zset_of_eq zset_at_def)
     (simp add: redis_empty_def)

subsection \<open>Presence: a snapshot that does not parse\<close>

lemma info_B_blank_invalid:
  "DeviceInfo_from_json json_loads (DeviceInfo_to_json json_dumps info_B_blank) = Inl ValidationError"
  "DeviceInfo_to_json json_dumps info_B_blank \<noteq> []"
  by code_simp+

lemma blank_hostname_kv:
  "kv presence_with_blank_hostname =
     (\<lambda>k. if k = redis__presence_prefix ''ip1'' then Some (RZSet [(dev_B, 100), (dev_A, 100)])
          else if k = redis__device_info_prefix ''ip1'' dev_A
            then Some (RString (DeviceInfo_to_json json_dumps info_A))
          else if k = redis__device_info_prefix ''ip1'' dev_B
            then Some (RString (DeviceInfo_to_json json_dumps info_B_blank))
          else None)"
  using dev_A_neq_dev_B presence_key_neq_info_key[of "''ip1''"]
  by (auto simp: presence_with_blank_hostname_def update_store updated_def redis_empty_settled
      expire_due_def alive_def is_string_def zset_at_def without_def fun_eq_iff
      info_key_inj redis_empty_def)

lemma blank_hostname_settled: "expire_due presence_with_blank_hostname = presence_with_blank_hostname"
  unfolding presence_with_blank_hostname_def update_store
  by (intro expire_due_settled settled_updated settled_expire_due)

lemma list_A_alone:
  "snd (redis__active_devices_for_client_ip json_loads 0
          (fst (redis__update_presence_for_device json_dumps 0 redis_empty
                  ''ip1'' dev_A info_A (Some 100) 10))
          ''ip1'' (Some 108) 10) = Inr [info_A]"
  using presence_key_neq_info_key[of "''ip1''"] presence_key_neq_info_key[of "''ip1''", symmetric]
  by (simp add: list_result update_store updated_def redis_empty_settled expire_due_def alive_def
      redis_empty_def is_string_def zset_at_def fresh_def zsorted_def without_def fetch_infos_def
      redis_get_def err_of_def info_A_roundtrip info_json_nonempty)

text \<open>
  Claim C3. The claim is that a device whose most recent presence update was made at
  \<open>t2\<close> is in the result of \<^verbatim>\<open>redis__active_devices_for_client_ip\<close> at
  \<open>t2 + window - eps\<close>. The code does not return it when the snapshot of any listed
  device fails to parse: \<^verbatim>\<open>DeviceInfo.from_json\<close> raises and never returns \<^verbatim>\<open>None\<close>, so the
  test \<^verbatim>\<open>if dinfo is not None\<close> that was meant to skip such a snapshot never gets to
  run, and the whole call raises. \<^verbatim>\<open>redis__update_presence_for_device\<close> stores the
  payload it is given without validating it: the update of \<open>dev_B\<close> with a blank
  hostname returns, and so does the update of \<open>dev_A\<close> at time 100 with a valid payload.
  At time 108, with the window of 10 seconds, \<open>dev_A\<close> has the score 100 and its snapshot
  is in the store, and the call raises \<^verbatim>\<open>ValidationError\<close> instead of returning it.
  Without the update of \<open>dev_B\<close> the same call returns \<open>info_A\<close>.
\<close>

theorem C3_list_raises_on_unparseable_snapshot:
  "snd (redis__update_presence_for_device json_dumps 0 redis_empty
          ''ip1'' dev_B info_B_blank (Some 100) 10) = Inr ()
   \<and> snd (redis__update_presence_for_device json_dumps 0
          (fst (redis__update_presence_for_device json_dumps 0 redis_empty
             ''ip1'' dev_B info_B_blank (Some 100) 10))
          ''ip1'' dev_A info_A (Some 100) 10) = Inr ()
   \<and> zscore presence_with_blank_hostname (redis__presence_prefix ''ip1'') dev_A = Some 100
   \<and> kv (expire_due presence_with_blank_hostname) (redis__device_info_prefix ''ip1'' dev_A)
       = Some (RString (DeviceInfo_to_json json_dumps info_A))
   \<and> snd (redis__active_devices_for_client_ip json_loads 0 presence_with_blank_hostname ''ip1''
            (Some 108) 10) = Inl ValidationError
   \<and> snd (redis__active_devices_for_client_ip json_loads 0
          (fst (redis__update_presence_for_device json_dumps 0 redis_empty
                  ''ip1'' dev_A info_A (Some 100) 10))
          ''ip1'' (Some 108) 10) = Inr [info_A]"
proof -
  have u1: "snd (redis__update_presence_for_device json_dumps 0 redis_empty
          ''ip1'' dev_B info_B_blank (Some 100) 10) = Inr ()"
    by (simp add: update_result redis_empty_settled is_string_def) (simp add: redis_empty_def)
  have u2: "snd (redis__update_presence_for_device json_dumps 0
          (fst (redis__update_presence_for_device json_dumps 0 redis_empty
             ''ip1'' dev_B info_B_blank (Some 100) 10))
          ''ip1'' dev_A info_A (Some 100) 10) = Inr ()"
    using presence_key_neq_info_key[of "''ip1''"]
    by (simp add: update_result update_store updated_def redis_empty_settled is_string_def
        expire_due_def alive_def redis_empty_def zset_at_def)
  have sc: "zscore presence_with_blank_hostname (redis__presence_prefix ''ip1'') dev_A = Some 100"
    using dev_A_neq_dev_B
    by (simp add: zscore_def zset_of_eq zset_at_def blank_hostname_settled blank_hostname_kv)
  have snap: "kv (expire_due presence_with_blank_hostname) (redis__device_info_prefix ''ip1'' dev_A)
       = Some (RString (DeviceInfo_to_json json_dumps info_A))"
    using presence_key_neq_info_key[of "''ip1''", symmetric]
    by (simp add: blank_hostname_settled blank_hostname_kv)
  have l: "snd (redis__active_devices_for_client_ip json_loads 0 presence_with_blank_hostname ''ip1''
            (Some 108) 10) = Inl ValidationError"
    using dev_A_neq_dev_B presence_key_neq_info_key[of "''ip1''"]
      presence_key_neq_info_key[of "''ip1''", symmetric]
    by (simp add: list_result blank_hostname_settled blank_hostname_kv is_string_def zset_at_def
        fresh_def zsorted_def fetch_infos_def redis_get_def err_of_def info_key_inj
        info_A_roundtrip info_json_nonempty info_B_blank_invalid)
  from u1 u2 sc snap l list_A_alone show ?thesis by simp
qed

subsection \<open>Presence: the snapshot is the latest payload\<close>




























subsection \<open>Mailbox: nothing older than the window\<close>

lemma after_push_any:
  assumes dt: "0 \<le> dt"
    and mem: "(DeviceMessage_to_json dumps m, sc)
                \<in> set (zset_of (redis_advance dt
                      (fst (redis__push_message_for_device dumps tm s ip d m (Some t) W)))
                      (redis__to_device_message_queue_prefix ip d))"
  shows "sc = t"
proof -
  let ?key = "redis__to_device_message_queue_prefix ip d"
  let ?raw = "DeviceMessage_to_json dumps m" and ?s0 = "expire_due s"
  let ?s1 = "pushed ?key ?raw t W ?s0"
  have s1: "fst (redis__push_message_for_device dumps tm s ip d m (Some t) W) = ?s1"
    by (rule push_store)
  have e1: "expire_due ?s1 = ?s1"
    by (intro expire_due_settled settled_pushed settled_expire_due)
  have z: "set (zset_at ?s1 ?key)
             \<subseteq> set (without ?raw (fresh (t - real_of_int W) (zset_at ?s0 ?key)) @ [(?raw, t)])"
    by (auto simp: pushed_def zset_at_def is_string_def redis_del_def
        split: option.splits rvalue.splits if_splits)
  from kv_advance_cases[OF dt, of ?s1 ?key]
  have "set (zset_of (redis_advance dt ?s1) ?key) \<subseteq> set (zset_at ?s1 ?key)"
    by (auto simp: zset_of_eq expire_due_advance e1 zset_at_def)
  with mem z have "(?raw, sc) \<in> set (without ?raw (fresh (t - real_of_int W) (zset_at ?s0 ?key)) @ [(?raw, t)])"
    unfolding s1 by blast
  then show ?thesis by (auto simp: without_def)
qed

lemma pull_popped:
  assumes "snd (redis__pull_messages_for_device loads time_time s client_ip dev_id message_count
             (Some now) expiration_secs) = Inr messages"
  shows "\<exists>popped. list_all2 (\<lambda>(raw, sc) msg.
             (raw, sc) \<in> set (zset_of s (redis__to_device_message_queue_prefix client_ip dev_id))
           \<and> now - real_of_int expiration_secs < sc
           \<and> DeviceMessage_from_json loads raw = Inr msg) popped messages"
proof -
  let ?key = "redis__to_device_message_queue_prefix client_ip dev_id"
  let ?popped = "take message_count (zsorted (fresh (now - real_of_int expiration_secs)
                   (zset_at (expire_due s) ?key)))"
  from assms have parse: "parse_messages loads ?popped = Inr messages"
    by (simp add: pull_result split: if_splits)
  have mem: "\<forall>e \<in> set ?popped. e \<in> set (zset_of s ?key) \<and> now - real_of_int expiration_secs < snd e"
    by (auto dest!: in_set_takeD simp: set_zsorted set_fresh zset_of_eq)
  have "list_all2 (\<lambda>e msg. DeviceMessage_from_json loads (fst e) = Inr msg) ?popped messages"
    using parse by (rule parse_messages_Inr)
  then have "list_all2 (\<lambda>e msg. (e \<in> set (zset_of s ?key) \<and> now - real_of_int expiration_secs < snd e)
           \<and> DeviceMessage_from_json loads (fst e) = Inr msg) ?popped messages"
    using mem by (rule list_all2_and_left)
  then have "list_all2 (\<lambda>(raw, sc) msg.
             (raw, sc) \<in> set (zset_of s ?key)
           \<and> now - real_of_int expiration_secs < sc
           \<and> DeviceMessage_from_json loads raw = Inr msg) ?popped messages"
    by (rule list_all2_mono) auto
  then show ?thesis by blast
qed

text \<open>
  Claim C2. Every message that \<^verbatim>\<open>redis__pull_messages_for_device\<close> returns at time
  \<open>now\<close> is the parse of a queue member whose score, the time at which it was last
  pushed, is later than \<open>now - expiration_secs\<close>: nothing enqueued more than the message
  window before \<open>now\<close> is returned. This holds for every store, hence after every
  sequence of pushes. In particular, after a push at time \<open>t\<close> and any wait, a pull at
  \<open>now \<ge> t + expiration_secs\<close> returns only parses of other members than the payload
  pushed at \<open>t\<close>.
\<close>

theorem C2_pull_within_window:
  "(snd (redis__pull_messages_for_device loads time_time s client_ip dev_id message_count
           (Some now) expiration_secs) = Inr messages \<longrightarrow>
      (\<exists>popped. list_all2 (\<lambda>(raw, sc) msg.
             (raw, sc) \<in> set (zset_of s (redis__to_device_message_queue_prefix client_ip dev_id))
           \<and> now - real_of_int expiration_secs < sc
           \<and> DeviceMessage_from_json loads raw = Inr msg) popped messages))
   \<and> (t + real_of_int expiration_secs \<le> now \<longrightarrow> 0 \<le> dt \<longrightarrow>
      snd (redis__pull_messages_for_device loads time_time
             (redis_advance dt (fst (redis__push_message_for_device dumps time_time s0 client_ip
                                       dev_id message (Some t) expiration_secs)))
             client_ip dev_id message_count (Some now) expiration_secs) = Inr messages' \<longrightarrow>
      (\<exists>popped :: (string \<times> real) list. list_all2 (\<lambda>(raw, sc) msg.
             raw \<noteq> DeviceMessage_to_json dumps message
           \<and> DeviceMessage_from_json loads raw = Inr msg) popped messages'))"
proof (intro conjI impI)
  assume "snd (redis__pull_messages_for_device loads time_time s client_ip dev_id message_count
           (Some now) expiration_secs) = Inr messages"
  then show "\<exists>popped. list_all2 (\<lambda>(raw, sc) msg.
             (raw, sc) \<in> set (zset_of s (redis__to_device_message_queue_prefix client_ip dev_id))
           \<and> now - real_of_int expiration_secs < sc
           \<and> DeviceMessage_from_json loads raw = Inr msg) popped messages"
    by (rule pull_popped)
next
  let ?s1 = "redis_advance dt (fst (redis__push_message_for_device dumps time_time s0 client_ip
                                       dev_id message (Some t) expiration_secs))"
  let ?key = "redis__to_device_message_queue_prefix client_ip dev_id"
  assume late: "t + real_of_int expiration_secs \<le> now" and dt: "0 \<le> dt"
    and r: "snd (redis__pull_messages_for_device loads time_time ?s1 client_ip dev_id
                   message_count (Some now) expiration_secs) = Inr messages'"
  from pull_popped[OF r] obtain popped where p:
    "list_all2 (\<lambda>(raw, sc) msg.
             (raw, sc) \<in> set (zset_of ?s1 ?key)
           \<and> now - real_of_int expiration_secs < sc
           \<and> DeviceMessage_from_json loads raw = Inr msg) popped messages'"
    by blast
  have "raw \<noteq> DeviceMessage_to_json dumps message"
    if "(raw, sc) \<in> set (zset_of ?s1 ?key)" "now - real_of_int expiration_secs < sc" for raw sc
  proof
    assume "raw = DeviceMessage_to_json dumps message"
    with that(1) after_push_any[OF dt, of dumps message sc time_time s0 client_ip dev_id t
        expiration_secs]
    have "sc = t" by simp
    with that(2) late show False by simp
  qed
  with p have "list_all2 (\<lambda>(raw, sc) msg.
             raw \<noteq> DeviceMessage_to_json dumps message
           \<and> DeviceMessage_from_json loads raw = Inr msg) popped messages'"
    by (auto elim!: list_all2_mono)
  then show "\<exists>popped :: (string \<times> real) list. list_all2 (\<lambda>(raw, sc) msg.
             raw \<noteq> DeviceMessage_to_json dumps message
           \<and> DeviceMessage_from_json loads raw = Inr msg) popped messages'"
    by (rule exI[where x = popped])
qed

lemma pull_late_example:
  "snd (redis__pull_messages_for_device json_loads 0
      (redis_advance 0 (fst (redis__push_message_for_device json_dumps 0
         (fst (redis__push_message_for_device json_dumps 0 redis_empty ''ip1'' dev_A msg_B
                 (Some 30) 60))
         ''ip1'' dev_A msg_A (Some 0) 60)))
      ''ip1'' dev_A 3 (Some 61) 60) = Inr [msg_B]"
  using example_payloads_distinct
  by (auto simp add: pull_result push_store redis_empty_settled pushed_def is_string_def zset_at_def
      redis_advance_def expire_due_def alive_def redis_empty_def fresh_def without_def zsorted_def
      msg_B_roundtrip)

text \<open>
  The message pushed at time 0 is returned at time 5 under the window of 60 seconds;
  at time 61 it is not, and the message pushed at time 30 is.
\<close>

theorem C2_pull_within_window_witness:
  "snd (redis__pull_messages_for_device json_loads 0
      (fst (redis__push_message_for_device json_dumps 0 redis_empty ''ip1'' dev_A msg_A (Some 0) 60))
      ''ip1'' dev_A 3 (Some 5) 60) = Inr [msg_A]
   \<and> (\<exists>popped. list_all2 (\<lambda>(raw, sc) msg.
             (raw, sc) \<in> set (zset_of
                (fst (redis__push_message_for_device json_dumps 0 redis_empty ''ip1'' dev_A msg_A (Some 0) 60))
                (redis__to_device_message_queue_prefix ''ip1'' dev_A))
           \<and> 5 - real_of_int 60 < sc
           \<and> DeviceMessage_from_json json_loads raw = Inr msg) popped [msg_A])
   \<and> (0::real) + real_of_int 60 \<le> 61
   \<and> snd (redis__pull_messages_for_device json_loads 0
      (redis_advance 0 (fst (redis__push_message_for_device json_dumps 0
         (fst (redis__push_message_for_device json_dumps 0 redis_empty ''ip1'' dev_A msg_B
                 (Some 30) 60))
         ''ip1'' dev_A msg_A (Some 0) 60)))
      ''ip1'' dev_A 3 (Some 61) 60) = Inr [msg_B]
   \<and> (\<exists>popped :: (string \<times> real) list. list_all2 (\<lambda>(raw, sc) msg.
             raw \<noteq> DeviceMessage_to_json json_dumps msg_A
           \<and> DeviceMessage_from_json json_loads raw = Inr msg) popped [msg_B])"
proof -
  have late: "(0::real) + real_of_int 60 \<le> 61" and dt: "(0::real) \<le> 0" by simp_all
  note a = C2_pull_within_window[where loads = json_loads and time_time = 0
      and s = "fst (redis__push_message_for_device json_dumps 0 redis_empty ''ip1'' dev_A msg_A
                      (Some 0) 60)"
      and client_ip = "''ip1''" and dev_id = dev_A and message_count = 3 and now = 5
      and expiration_secs = 60 and messages = "[msg_A]",
      THEN conjunct1, rule_format, OF pull_after_push_A]
  note b = C2_pull_within_window[where loads = json_loads and time_time = 0
      and client_ip = "''ip1''" and dev_id = dev_A and message_count = 3 and now = 61
      and expiration_secs = 60 and t = 0 and dt = 0 and dumps = json_dumps
      and ?s0.0 = "fst (redis__push_message_for_device json_dumps 0 redis_empty ''ip1'' dev_A
                          msg_B (Some 30) 60)"
      and message = msg_A and messages' = "[msg_B]",
      THEN conjunct2, rule_format, OF late dt pull_late_example]
  from pull_after_push_A a late pull_late_example b show ?thesis
    by (intro conjI)
qed

end
